theory Spec2Isabelle
  imports Complex_Main
begin

section \<open>The gateway protocol client (src/lib/gateway/gateway-client.ts)\<close>

text \<open>
  A shallow embedding of the class \<open>GatewayClient\<close> and of the subscription helper
  \<open>useGatewayEvent\<close> (src/lib/gateway/gateway-context.tsx). The private fields of the
  class are the first fields of the record \<open>gateway\<close>; the platform objects the class talks
  to (the WebSocket instances, the suspended token fetches, and a trace of every call the
  client makes on the platform) are its last three fields. Every method is a function from
  state to state. A JavaScript number is a real; the arithmetic of \<open>scheduleReconnect\<close>
  that can round is rounded to a double by \<open>fl\<close>.
\<close>

subsection \<open>JavaScript values\<close>

text \<open>
  The result of \<open>JSON.parse\<close>. A property that is absent reads as \<open>undefined\<close>, which is
  \<open>None\<close> of type \<open>json option\<close>; \<open>JNull\<close> is \<open>null\<close>.
\<close>

datatype json =
    JNull
  | JBool bool
  | JNum real
  | JStr string
  | JArr "json list"
  | JObj "(string \<times> json) list"

text \<open>
  \<open>d[k]\<close> for the keys this file reads (op, d, s, t, heartbeat_interval, session_id):
  none of them is a property of an array or of a primitive.
\<close>

fun get_prop :: "json \<Rightarrow> string \<Rightarrow> json option" where
  "get_prop (JObj kvs) k = map_of kvs k"
| "get_prop _ k = None"

text \<open>\<open>typeof d === "object"\<close>: objects, arrays and null.\<close>

fun typeof_object :: "json \<Rightarrow> bool" where
  "typeof_object (JObj kvs) = True"
| "typeof_object (JArr xs) = True"
| "typeof_object JNull = True"
| "typeof_object _ = False"

fun typeof_number :: "json option \<Rightarrow> bool" where
  "typeof_number (Some (JNum n)) = True"
| "typeof_number _ = False"

text \<open>JavaScript truthiness, as used by \<open>if (x)\<close> and \<open>!x\<close>.\<close>

fun truthy :: "json option \<Rightarrow> bool" where
  "truthy None = False"
| "truthy (Some JNull) = False"
| "truthy (Some (JBool b)) = b"
| "truthy (Some (JNum n)) = (n \<noteq> 0)"
| "truthy (Some (JStr s)) = (s \<noteq> [])"
| "truthy (Some (JArr xs)) = True"
| "truthy (Some (JObj kvs)) = True"

subsection \<open>Type guards for gateway payloads\<close>

definition isHelloData :: "json option \<Rightarrow> bool" where
  "isHelloData d =
     (case d of
        None \<Rightarrow> False
      | Some v \<Rightarrow>
          typeof_object v \<and> v \<noteq> JNull \<and> get_prop v ''heartbeat_interval'' \<noteq> None \<and>
          typeof_number (get_prop v ''heartbeat_interval''))"

definition isReadyData :: "json option \<Rightarrow> bool" where
  "isReadyData d = (case d of None \<Rightarrow> False | Some v \<Rightarrow> typeof_object v \<and> v \<noteq> JNull)"

definition isFrame :: "json \<Rightarrow> bool" where
  "isFrame d =
     (typeof_object d \<and> d \<noteq> JNull \<and> get_prop d ''op'' \<noteq> None \<and> typeof_number (get_prop d ''op''))"

subsection \<open>Constants\<close>

definition OP_DISPATCH :: real where "OP_DISPATCH = 0"
definition OP_HEARTBEAT :: real where "OP_HEARTBEAT = 1"
definition OP_IDENTIFY :: real where "OP_IDENTIFY = 2"
definition OP_PRESENCE_UPDATE :: real where "OP_PRESENCE_UPDATE = 3"
definition OP_RESUME :: real where "OP_RESUME = 6"
definition OP_RECONNECT :: real where "OP_RECONNECT = 7"
definition OP_INVALID_SESSION :: real where "OP_INVALID_SESSION = 9"
definition OP_HELLO :: real where "OP_HELLO = 10"
definition OP_HEARTBEAT_ACK :: real where "OP_HEARTBEAT_ACK = 11"

definition CLOSE_INVALID_TOKEN :: nat where "CLOSE_INVALID_TOKEN = 4004"
definition CLOSE_RATE_LIMITED :: nat where "CLOSE_RATE_LIMITED = 4008"

definition MAX_BACKOFF_MS :: real where "MAX_BACKOFF_MS = 30000"
definition RATE_LIMIT_WAIT_MS :: real where "RATE_LIMIT_WAIT_MS = 60000"

text \<open>
  \<open>deriveWsUrl\<close>: strip the trailing slashes, turn a leading \<open>http\<close> into \<open>ws\<close>, append
  the gateway path.
\<close>

definition deriveWsUrl :: "string \<Rightarrow> string" where
  "deriveWsUrl baseUrl =
     (let url = rev (dropWhile (\<lambda>c. c = CHR ''/'') (rev baseUrl));
          wsUrl = (if take 4 url = ''http'' then ''ws'' @ drop 4 url else url)
      in wsUrl @ ''/api/v1/gateway'')"

text \<open>\<open>Math.round\<close>: the nearest integer, a tie going up.\<close>

definition Math_round :: "real \<Rightarrow> int" where
  "Math_round x = \<lfloor>x + 1 / 2\<rfloor>"

text \<open>
  The result of an arithmetic operation on doubles is the exact result rounded to the
  nearest number with a 53-bit significand, a tie going to the even significand:
  \<open>fl\<close> scales \<open>|x|\<close> by the power of two \<open>q\<close> that puts it in \<open>[2^52, 2^53)\<close>, rounds to
  an integer and scales back. The exponent range of doubles is not modelled: the values
  of \<open>scheduleReconnect\<close> stay far inside it.
\<close>

definition round_half_even :: "real \<Rightarrow> int" where
  "round_half_even y =
     (let n = \<lfloor>y\<rfloor>; f = y - of_int n
      in if f < 1 / 2 then n else if 1 / 2 < f then n + 1 else if even n then n else n + 1)"

definition fl :: "real \<Rightarrow> real" where
  "fl x =
     (let q = 2 powr of_int (\<lfloor>log 2 \<bar>x\<bar>\<rfloor> - 52)
      in sgn x * (of_int (round_half_even (\<bar>x\<bar> / q)) * q))"

subsection \<open>The platform: sockets, handlers, and the trace of calls\<close>

datatype ready_state = CONNECTING | OPEN | CLOSING | CLOSED

text \<open>
  A WebSocket instance. \<open>connect\<close> assigns its four callbacks together and \<open>cleanup\<close>
  nulls them together, so one flag \<open>wired\<close> stands for all four.
\<close>

record socket =
  url :: string
  readyState :: ready_state
  wired :: bool

text \<open>
  Every call the client makes on the platform, in order. \<open>Invoke h data s\<close> is the call of
  the subscriber with identity \<open>h\<close> on \<open>data\<close>, made while the field \<open>seq\<close> held \<open>s\<close>.
  \<open>Uncaught\<close> is an exception that left a transport callback.
\<close>

datatype effect =
    NewWebSocket nat string
  | WsSend nat json
  | WsClose nat nat
  | SetInterval real
  | ClearInterval
  | SetTimeout int
  | ClearTimeout
  | GetToken
  | ConsoleWarn
  | Invoke nat "json option" json
  | Uncaught

text \<open>
  \<open>type EventHandler = (data: unknown) => void\<close>. A handler is opaque to the client: all
  the client can see of a call is whether it returns or throws. Handlers are taken not to
  call back into the client while they run. A registered handler is a pair of the identity
  of the function object (what \<open>Set\<close> compares) and the function.
\<close>

datatype outcome = Returns | Throws

type_synonym EventHandler = "json option \<Rightarrow> outcome"

text \<open>
  \<open>stableHandler\<close> of \<open>useGatewayEvent\<close>: the function the hook registers with
  \<open>client.on\<close>. It runs the caller's handler inside \<open>try\<close>/\<open>catch\<close>.
\<close>

definition stableHandler :: "EventHandler \<Rightarrow> EventHandler" where
  "stableHandler handler data = (case handler data of Returns \<Rightarrow> Returns | Throws \<Rightarrow> Returns)"

record gateway =
  baseUrl :: string
  ws :: "nat option"
  heartbeatTimer :: "real option"
  heartbeatAckReceived :: bool
  reconnectTimer :: "int option"
  reconnectAttempts :: nat
  sessionId :: json
  seq :: json
  intentionalClose :: bool
  disposed :: bool
  listeners :: "string \<rightharpoonup> (nat \<times> EventHandler) list"
  sockets :: "socket list"
  pending :: "json list"
  trace :: "effect list"

text \<open>The constructor. No socket exists yet; the field initialisers are those of the class.\<close>

definition GatewayClient :: "string \<Rightarrow> gateway" where
  "GatewayClient b =
     \<lparr> baseUrl = b, ws = None, heartbeatTimer = None, heartbeatAckReceived = True,
       reconnectTimer = None, reconnectAttempts = 0, sessionId = JNull, seq = JNull,
       intentionalClose = False, disposed = False, listeners = Map.empty,
       sockets = [], pending = [], trace = [] \<rparr>"

text \<open>A call on the platform, appended to the trace.\<close>

definition perform :: "effect \<Rightarrow> gateway \<Rightarrow> gateway" where
  "perform e st = st\<lparr>trace := trace st @ [e]\<rparr>"

text \<open>
  \<open>WebSocket.close(code)\<close> of the platform: the closing handshake starts unless the
  socket is already closing or closed. The codes the client passes (1000, 4000) are
  accepted by every platform, so the call does not throw.
\<close>

definition ws_close :: "nat \<Rightarrow> nat \<Rightarrow> gateway \<Rightarrow> gateway" where
  "ws_close s code st =
     (let sock = sockets st ! s;
          sock' = (if readyState sock = CONNECTING \<or> readyState sock = OPEN
                   then sock\<lparr>readyState := CLOSING\<rparr> else sock)
      in perform (WsClose s code) (st\<lparr>sockets := (sockets st)[s := sock']\<rparr>))"

text \<open>\<open>this.ws?.close(code)\<close>\<close>

definition close_current :: "nat \<Rightarrow> gateway \<Rightarrow> gateway" where
  "close_current code st = (case ws st of Some s \<Rightarrow> ws_close s code st | None \<Rightarrow> st)"

text \<open>\<open>this.ws?.readyState === WebSocket.OPEN\<close>\<close>

definition socket_open :: "gateway \<Rightarrow> bool" where
  "socket_open st =
     (case ws st of None \<Rightarrow> False | Some s \<Rightarrow> readyState (sockets st ! s) = OPEN)"

subsection \<open>Private methods\<close>

definition stopHeartbeat :: "gateway \<Rightarrow> gateway" where
  "stopHeartbeat st =
     (case heartbeatTimer st of
        Some t \<Rightarrow> perform ClearInterval (st\<lparr>heartbeatTimer := None\<rparr>)
      | None \<Rightarrow> st)"

definition clearReconnectTimer :: "gateway \<Rightarrow> gateway" where
  "clearReconnectTimer st =
     (case reconnectTimer st of
        Some t \<Rightarrow> perform ClearTimeout (st\<lparr>reconnectTimer := None\<rparr>)
      | None \<Rightarrow> st)"

definition cleanup :: "gateway \<Rightarrow> gateway" where
  "cleanup st =
     (let st1 = stopHeartbeat st
      in case ws st1 of
           Some s \<Rightarrow> st1\<lparr>sockets := (sockets st1)[s := (sockets st1 ! s)\<lparr>wired := False\<rparr>]\<rparr>
         | None \<Rightarrow> st1)"

definition send :: "json \<Rightarrow> gateway \<Rightarrow> gateway" where
  "send frame st =
     (case ws st of
        Some s \<Rightarrow> if readyState (sockets st ! s) = OPEN then perform (WsSend s frame) st else st
      | None \<Rightarrow> st)"

text \<open>
  The loop of \<open>emit\<close> over the handler set, in insertion order. A handler that throws ends
  the loop: the exception leaves \<open>emit\<close>.
\<close>

fun emit_loop :: "(nat \<times> EventHandler) list \<Rightarrow> json option \<Rightarrow> gateway \<Rightarrow> gateway \<times> outcome" where
  "emit_loop [] data st = (st, Returns)"
| "emit_loop (h # hs) data st =
     (let st1 = perform (Invoke (fst h) data (seq st)) st
      in case snd h data of
           Throws \<Rightarrow> (st1, Throws)
         | Returns \<Rightarrow> emit_loop hs data st1)"

definition emit :: "string \<Rightarrow> json option \<Rightarrow> gateway \<Rightarrow> gateway \<times> outcome" where
  "emit event data st =
     (case listeners st event of
        Some hs \<Rightarrow> emit_loop hs data st
      | None \<Rightarrow> (st, Returns))"

text \<open>
  \<open>scheduleReconnect(delayMs?)\<close>. The argument \<open>r\<close> is the value \<open>Math.random()\<close> returns
  in this call, a number in \<open>[0, 1)\<close>. The subtraction, the product and the sum are
  operations on doubles, each rounded by \<open>fl\<close>; \<open>1000 * 2 ** reconnectAttempts\<close> is a
  power of two times 1000 and exact (where it overflows, \<open>Math.min\<close> gives the ceiling all
  the same), and \<open>Math.round\<close> is exact on its argument.
\<close>

definition scheduleReconnect :: "real option \<Rightarrow> real \<Rightarrow> gateway \<Rightarrow> gateway" where
  "scheduleReconnect delayMs r st =
     (if disposed st then st
      else
        let st1 = clearReconnectTimer st;
            base = (case delayMs of
                      Some d \<Rightarrow> d
                    | None \<Rightarrow> min (1000 * 2 ^ reconnectAttempts st1) MAX_BACKOFF_MS);
            jitter = fl (fl (r - 1 / 2) * base);
            backoff = Math_round (fl (base + jitter))
        in perform (SetTimeout backoff)
             (st1\<lparr>reconnectAttempts := reconnectAttempts st1 + 1,
                  reconnectTimer := Some backoff\<rparr>))"

definition startHeartbeat :: "real \<Rightarrow> gateway \<Rightarrow> gateway" where
  "startHeartbeat intervalMs st =
     (let st1 = stopHeartbeat st
      in perform (SetInterval intervalMs)
           (st1\<lparr>heartbeatAckReceived := True, heartbeatTimer := Some intervalMs\<rparr>))"

text \<open>The callback \<open>startHeartbeat\<close> hands to \<open>setInterval\<close>: one tick.\<close>

definition heartbeat_frame :: json where
  "heartbeat_frame = JObj [(''op'', JNum OP_HEARTBEAT)]"

definition heartbeatTick :: "gateway \<Rightarrow> gateway" where
  "heartbeatTick st =
     (if \<not> heartbeatAckReceived st then
        close_current 4000 st
      else send heartbeat_frame (st\<lparr>heartbeatAckReceived := False\<rparr>))"

subsection \<open>The Hello handler\<close>

text \<open>
  \<open>handleHello\<close> is the one asynchronous method. \<open>handleHello_await\<close> is its run up to
  \<open>await this.getToken()\<close>: the accessor is called and the method is suspended with its
  argument. \<open>handleHello_resumed\<close> is the rest, run when the promise has resolved to
  \<open>token\<close> (\<open>None\<close> is \<open>null\<close>).
\<close>

definition heartbeat_interval :: "json \<Rightarrow> real" where
  "heartbeat_interval data =
     (case get_prop data ''heartbeat_interval'' of Some (JNum n) \<Rightarrow> n | _ \<Rightarrow> 0)"

definition resume_frame :: "string \<Rightarrow> json \<Rightarrow> json \<Rightarrow> json" where
  "resume_frame token sid sq =
     JObj [(''op'', JNum OP_RESUME),
           (''d'', JObj [(''token'', JStr token), (''session_id'', sid), (''seq'', sq)])]"

definition identify_frame :: "string \<Rightarrow> json" where
  "identify_frame token = JObj [(''op'', JNum OP_IDENTIFY), (''d'', JObj [(''token'', JStr token)])]"

definition handleHello_await :: "json \<Rightarrow> gateway \<Rightarrow> gateway" where
  "handleHello_await data st = perform GetToken (st\<lparr>pending := pending st @ [data]\<rparr>)"

definition handleHello_resumed :: "json \<Rightarrow> string option \<Rightarrow> gateway \<Rightarrow> gateway" where
  "handleHello_resumed data token st =
     (if disposed st then st
      else
        let st1 = startHeartbeat (heartbeat_interval data) st
        in case token of
             None \<Rightarrow>
               close_current 4000 (st1\<lparr>intentionalClose := True\<rparr>)
           | Some tok \<Rightarrow>
               if tok = [] then
                 close_current 4000 (st1\<lparr>intentionalClose := True\<rparr>)
               else if truthy (Some (sessionId st1)) \<and> seq st1 \<noteq> JNull then
                 send (resume_frame tok (sessionId st1) (seq st1)) st1
               else send (identify_frame tok) st1)"

subsection \<open>Dispatch frames and the message handler\<close>

text \<open>
  \<open>handleDispatch\<close>. \<open>track_seq\<close> is its \<open>if (frame.s != null) this.seq = frame.s\<close> and
  \<open>store_session_id\<close> is its \<open>if (frame.d.session_id)\<close>. The listener
  keys are strings, so \<open>emit(frame.t, ...)\<close> with a truthy \<open>t\<close> that is not a string finds no
  handler set.
\<close>

definition track_seq :: "json \<Rightarrow> gateway \<Rightarrow> gateway" where
  "track_seq frame st =
     (case get_prop frame ''s'' of
        None \<Rightarrow> st
      | Some v \<Rightarrow> if v \<noteq> JNull then st\<lparr>seq := v\<rparr> else st)"

definition store_session_id :: "json option \<Rightarrow> gateway \<Rightarrow> gateway" where
  "store_session_id d st =
     (case d of
        None \<Rightarrow> st
      | Some dv \<Rightarrow>
          (case get_prop dv ''session_id'' of
             None \<Rightarrow> st
           | Some sid \<Rightarrow> if truthy (Some sid) then st\<lparr>sessionId := sid\<rparr> else st))"

definition handleDispatch :: "json \<Rightarrow> gateway \<Rightarrow> gateway \<times> outcome" where
  "handleDispatch frame st =
     (let st1 = track_seq frame st;
          d = get_prop frame ''d'';
          res = (if get_prop frame ''t'' = Some (JStr ''READY'') \<and> isReadyData d
                 then emit ''open'' d (store_session_id d st1)
                 else (st1, Returns))
      in case res of
           (st2, Throws) \<Rightarrow> (st2, Throws)
         | (st2, Returns) \<Rightarrow>
             (case get_prop frame ''t'' of
                Some (JStr t) \<Rightarrow> if t \<noteq> [] then emit t d st2 else (st2, Returns)
              | _ \<Rightarrow> (st2, Returns)))"

text \<open>
  The argument of \<open>handleMessage\<close> in the model is what \<open>JSON.parse(raw)\<close> does on the
  payload: it throws a \<open>SyntaxError\<close> or returns a value.
\<close>

datatype parsed = SyntaxError | Value json

definition handleMessage :: "parsed \<Rightarrow> gateway \<Rightarrow> gateway \<times> outcome" where
  "handleMessage raw st =
     (if disposed st then (st, Returns)
      else case raw of
        SyntaxError \<Rightarrow> (perform ConsoleWarn st, Returns)
      | Value frame \<Rightarrow>
          if \<not> isFrame frame then (st, Returns)
          else case get_prop frame ''op'' of
            Some (JNum opc) \<Rightarrow>
              if opc = OP_HELLO then
                (case get_prop frame ''d'' of
                   Some d \<Rightarrow>
                     if isHelloData (Some d) then (handleHello_await d st, Returns)
                     else (st, Returns)
                 | None \<Rightarrow> (st, Returns))
              else if opc = OP_DISPATCH then handleDispatch frame st
              else if opc = OP_HEARTBEAT_ACK then (st\<lparr>heartbeatAckReceived := True\<rparr>, Returns)
              else if opc = OP_RECONNECT then
                (close_current 4000 st, Returns)
              else if opc = OP_INVALID_SESSION then
                (let st1 = (if \<not> truthy (get_prop frame ''d'')
                            then st\<lparr>sessionId := JNull, seq := JNull\<rparr> else st)
                 in (close_current 4000 st1, Returns))
              else (st, Returns)
          | _ \<Rightarrow> (st, Returns))"

subsection \<open>Public methods and the transport callbacks\<close>

definition connect :: "gateway \<Rightarrow> gateway" where
  "connect st =
     (if disposed st then st
      else
        let st1 = clearReconnectTimer (st\<lparr>intentionalClose := False\<rparr>);
            st2 = (case ws st1 of
                     Some s \<Rightarrow> (ws_close s 1000 (cleanup st1))\<lparr>ws := None\<rparr>
                   | None \<Rightarrow> st1);
            u = deriveWsUrl (baseUrl st2);
            n = length (sockets st2)
        in perform (NewWebSocket n u)
             (st2\<lparr>sockets := sockets st2 @ [\<lparr>url = u, readyState = CONNECTING, wired = True\<rparr>],
                  ws := Some n\<rparr>))"

definition onopen :: "gateway \<Rightarrow> gateway" where
  "onopen st = st\<lparr>reconnectAttempts := 0\<rparr>"

text \<open>
  \<open>ws.onclose\<close> of the socket \<open>s\<close> that \<open>connect\<close> created; \<open>r\<close> is the value of
  \<open>Math.random()\<close> should a reconnect be scheduled. \<open>close_event\<close> is the object
  \<open>{ code: event.code, reason: event.reason }\<close> handed to the subscribers.
\<close>

definition close_event :: "nat \<Rightarrow> string \<Rightarrow> json option" where
  "close_event code reason =
     Some (JObj [(''code'', JNum (real code)), (''reason'', JStr reason)])"

definition onclose :: "nat \<Rightarrow> nat \<Rightarrow> string \<Rightarrow> real \<Rightarrow> gateway \<Rightarrow> gateway \<times> outcome" where
  "onclose s code reason r st =
     (let st1 = cleanup st
      in if disposed st1 \<or> Some s \<noteq> ws st1 then (st1, Returns)
         else
           case emit ''close'' (close_event code reason) st1 of
             (st2, Throws) \<Rightarrow> (st2, Throws)
           | (st2, Returns) \<Rightarrow>
               if intentionalClose st2 then (st2, Returns)
               else if code = CLOSE_INVALID_TOKEN then
                 (scheduleReconnect None r (st2\<lparr>sessionId := JNull, seq := JNull\<rparr>), Returns)
               else if code = CLOSE_RATE_LIMITED then
                 (scheduleReconnect (Some RATE_LIMIT_WAIT_MS) r st2, Returns)
               else (scheduleReconnect None r st2, Returns))"

definition presence_frame :: "string \<Rightarrow> json" where
  "presence_frame status =
     JObj [(''op'', JNum OP_PRESENCE_UPDATE), (''d'', JObj [(''status'', JStr status)])]"

definition sendPresenceUpdate :: "string \<Rightarrow> gateway \<Rightarrow> gateway" where
  "sendPresenceUpdate status st = send (presence_frame status) st"

definition disconnect :: "gateway \<Rightarrow> gateway" where
  "disconnect st =
     (let st1 = cleanup (clearReconnectTimer (st\<lparr>disposed := True, intentionalClose := True\<rparr>))
      in case ws st1 of
           Some s \<Rightarrow> (ws_close s 1000 st1)\<lparr>ws := None\<rparr>
         | None \<Rightarrow> st1)"

text \<open>\<open>Set.add\<close>: a function object already in the set is not added again.\<close>

definition Set_add :: "nat \<times> EventHandler \<Rightarrow> (nat \<times> EventHandler) list \<Rightarrow> (nat \<times> EventHandler) list" where
  "Set_add h hs = (if fst h \<in> fst ` set hs then hs else hs @ [h])"

text \<open>\<open>on(event, handler)\<close>, the subscription itself (not the unsubscribe closure it returns).\<close>

definition on_event :: "string \<Rightarrow> nat \<times> EventHandler \<Rightarrow> gateway \<Rightarrow> gateway" where
  "on_event event handler st =
     (let hs = (case listeners st event of Some hs \<Rightarrow> hs | None \<Rightarrow> [])
      in st\<lparr>listeners := (listeners st)(event \<mapsto> Set_add handler hs)\<rparr>)"

subsection \<open>The event loop\<close>

text \<open>
  What can happen to a client, one event at a time (the runtime is single-threaded): a call
  of a public method, a socket event, a timer firing, a token fetch settling. The platform
  delivers a socket event only to a callback that is still assigned, a message only on an
  open socket, and a timer tick only while the timer is set. An exception that leaves a
  transport callback is recorded as \<open>Uncaught\<close>.
\<close>

datatype token_result = Resolved "string option" | Rejected

datatype event =
    Connect
  | Disconnect
  | SendPresenceUpdate string
  | On string nat EventHandler
  | SocketOpens nat
  | SocketMessage nat parsed
  | SocketCloses nat nat string real
  | SocketError nat
  | HeartbeatFires
  | ReconnectFires
  | TokenSettles nat token_result

definition uncaught :: "gateway \<times> outcome \<Rightarrow> gateway" where
  "uncaught res = (case res of (st, Throws) \<Rightarrow> perform Uncaught st | (st, Returns) \<Rightarrow> st)"

definition set_readyState :: "nat \<Rightarrow> ready_state \<Rightarrow> gateway \<Rightarrow> gateway" where
  "set_readyState s rs st = st\<lparr>sockets := (sockets st)[s := (sockets st ! s)\<lparr>readyState := rs\<rparr>]\<rparr>"

fun step :: "event \<Rightarrow> gateway \<Rightarrow> gateway" where
  "step Connect st = connect st"
| "step Disconnect st = disconnect st"
| "step (SendPresenceUpdate status) st = sendPresenceUpdate status st"
| "step (On event i handler) st = on_event event (i, handler) st"
| "step (SocketOpens s) st =
     (if s < length (sockets st) \<and> readyState (sockets st ! s) = CONNECTING then
        (let st1 = set_readyState s OPEN st
         in if wired (sockets st1 ! s) then onopen st1 else st1)
      else st)"
| "step (SocketMessage s raw) st =
     (if s < length (sockets st) \<and> readyState (sockets st ! s) = OPEN \<and> wired (sockets st ! s)
      then uncaught (handleMessage raw st) else st)"
| "step (SocketCloses s code reason r) st =
     (if s < length (sockets st) \<and> readyState (sockets st ! s) \<noteq> CLOSED then
        (let st1 = set_readyState s CLOSED st
         in if wired (sockets st1 ! s) then uncaught (onclose s code reason r st1) else st1)
      else st)"
| "step (SocketError s) st = st"
| "step HeartbeatFires st = (if heartbeatTimer st \<noteq> None then heartbeatTick st else st)"
| "step ReconnectFires st = (if reconnectTimer st \<noteq> None then connect st else st)"
| "step (TokenSettles i res) st =
     (if i < length (pending st) then
        (let data = pending st ! i;
             st1 = st\<lparr>pending := take i (pending st) @ drop (Suc i) (pending st)\<rparr>
         in case res of
              Rejected \<Rightarrow> st1
            | Resolved token \<Rightarrow> handleHello_resumed data token st1)
      else st)"

definition run :: "event list \<Rightarrow> gateway \<Rightarrow> gateway" where
  "run evs st = fold step evs st"

text \<open>
  The handlers \<open>emit_loop\<close> reaches: all of them up to and including the first that throws.
\<close>

fun called :: "(nat \<times> EventHandler) list \<Rightarrow> json option \<Rightarrow> (nat \<times> EventHandler) list" where
  "called [] data = []"
| "called (h # hs) data = h # (case snd h data of Throws \<Rightarrow> [] | Returns \<Rightarrow> called hs data)"

text \<open>The calls that hand a frame to a socket.\<close>

fun is_send :: "effect \<Rightarrow> bool" where
  "is_send (WsSend s frame) = True"
| "is_send _ = False"

text \<open>The calls that open a socket or start a timer.\<close>

fun starts :: "effect \<Rightarrow> bool" where
  "starts (NewWebSocket s u) = True"
| "starts (SetInterval ms) = True"
| "starts (SetTimeout ms) = True"
| "starts _ = False"

text \<open>The calls made between two states: what the later trace has beyond the earlier one.\<close>

definition new_effects :: "gateway \<Rightarrow> gateway \<Rightarrow> effect list" where
  "new_effects st st' = drop (length (trace st)) (trace st')"

text \<open>
  Facts that hold of every state a client can be in (they are proved below for every run of
  the event loop from the constructor): the stored session id is \<open>null\<close> or truthy, a
  disposed client has no heartbeat timer, a client that is not disposed and has no socket
  has never had one, and \<open>this.ws\<close> is a socket that exists.
\<close>

definition wellformed :: "gateway \<Rightarrow> bool" where
  "wellformed st =
     ((sessionId st = JNull \<or> truthy (Some (sessionId st))) \<and>
      (\<not> disposed st \<or> heartbeatTimer st = None) \<and>
      (disposed st \<or> ws st \<noteq> None \<or>
         (sockets st = [] \<and> pending st = [] \<and> heartbeatTimer st = None)) \<and>
      (ws st = None \<or> the (ws st) < length (sockets st)))"

subsection \<open>Example frames and states\<close>

definition hello_frame :: json where
  "hello_frame = JObj [(''op'', JNum 10), (''d'', JObj [(''heartbeat_interval'', JNum 1000)])]"

definition ready_frame :: json where
  "ready_frame =
     JObj [(''op'', JNum 0), (''t'', JStr ''READY''), (''s'', JNum 1),
           (''d'', JObj [(''session_id'', JStr ''sess-1'')])]"

definition message_frame :: json where
  "message_frame =
     JObj [(''op'', JNum 0), (''t'', JStr ''MESSAGE_CREATE''), (''s'', JNum 2),
           (''d'', JObj [(''content'', JStr ''hello'')])]"

definition reconnect_frame :: json where
  "reconnect_frame = JObj [(''op'', JNum 7)]"

definition throwing_handler :: EventHandler where
  "throwing_handler data = Throws"

definition returning_handler :: EventHandler where
  "returning_handler data = Returns"

text \<open>A client whose socket has opened.\<close>

definition connected :: gateway where
  "connected = run [Connect, SocketOpens 0] (GatewayClient ''http://localhost:8080'')"

text \<open>A client that has received Hello and is waiting for the token.\<close>

definition awaiting_token :: gateway where
  "awaiting_token = step (SocketMessage 0 (Value hello_frame)) connected"

text \<open>A client that has sent Identify and whose heartbeat runs.\<close>

definition identified :: gateway where
  "identified = step (TokenSettles 0 (Resolved (Some ''test-token''))) awaiting_token"

text \<open>Two handlers subscribed with \<open>client.on\<close> directly; the first throws.\<close>

definition direct_subscribers :: gateway where
  "direct_subscribers =
     run [On ''MESSAGE_CREATE'' 1 throwing_handler, On ''MESSAGE_CREATE'' 2 returning_handler]
       identified"

text \<open>The same two handlers subscribed through \<open>useGatewayEvent\<close>.\<close>

definition hook_subscribers :: gateway where
  "hook_subscribers =
     run [On ''MESSAGE_CREATE'' 1 (stableHandler throwing_handler),
          On ''MESSAGE_CREATE'' 2 (stableHandler returning_handler)]
       identified"

section \<open>Properties\<close>

lemmas opcode_defs =
  OP_DISPATCH_def OP_HEARTBEAT_def OP_IDENTIFY_def OP_PRESENCE_UPDATE_def OP_RESUME_def
  OP_RECONNECT_def OP_INVALID_SESSION_def OP_HELLO_def OP_HEARTBEAT_ACK_def
  CLOSE_INVALID_TOKEN_def CLOSE_RATE_LIMITED_def MAX_BACKOFF_MS_def RATE_LIMIT_WAIT_MS_def

lemmas frame_defs =
  heartbeat_frame_def identify_frame_def resume_frame_def presence_frame_def
  heartbeat_interval_def isFrame_def isHelloData_def isReadyData_def

lemmas method_defs =
  perform_def ws_close_def close_current_def socket_open_def stopHeartbeat_def clearReconnectTimer_def cleanup_def
  send_def emit_def scheduleReconnect_def startHeartbeat_def heartbeatTick_def
  handleHello_await_def handleHello_resumed_def track_seq_def store_session_id_def handleDispatch_def
  handleMessage_def connect_def onopen_def onclose_def sendPresenceUpdate_def disconnect_def
  Set_add_def on_event_def uncaught_def set_readyState_def

lemmas example_defs =
  hello_frame_def ready_frame_def message_frame_def reconnect_frame_def connected_def
  awaiting_token_def identified_def throwing_handler_def returning_handler_def
  direct_subscribers_def hook_subscribers_def stableHandler_def

lemmas run_defs =
  run_def GatewayClient_def close_event_def deriveWsUrl_def Math_round_def new_effects_def Let_def
  opcode_defs frame_defs method_defs

subsection \<open>Rounding to a double\<close>

lemma rhe_bounds: "\<lfloor>y\<rfloor> \<le> round_half_even y" "round_half_even y \<le> \<lfloor>y\<rfloor> + 1"
  by (simp_all add: round_half_even_def Let_def)

lemma rhe_int [simp]: "round_half_even (of_int k) = k"
  by (simp add: round_half_even_def)

lemma rhe_mono: "y \<le> z \<Longrightarrow> round_half_even y \<le> round_half_even z"
proof -
  assume yz: "y \<le> z"
  then have f: "\<lfloor>y\<rfloor> \<le> \<lfloor>z\<rfloor>" by (rule floor_mono)
  show ?thesis
  proof (cases "\<lfloor>y\<rfloor> = \<lfloor>z\<rfloor>")
    case True
    with yz show ?thesis by (auto simp: round_half_even_def Let_def)
  next
    case False
    with f have "\<lfloor>y\<rfloor> + 1 \<le> \<lfloor>z\<rfloor>" by simp
    with rhe_bounds(2)[of y] rhe_bounds(1)[of z] show ?thesis by linarith
  qed
qed

lemma rhe_ge: "of_int k \<le> y \<Longrightarrow> k \<le> round_half_even y"
  using rhe_mono[of "of_int k" y] by simp

lemma rhe_le: "y \<le> of_int k \<Longrightarrow> round_half_even y \<le> k"
  using rhe_mono[of y "of_int k"] by simp

lemma fl_zero [simp]: "fl 0 = 0"
  by (simp add: fl_def)

lemma fl_minus [simp]: "fl (- x) = - fl x"
  by (simp add: fl_def Let_def sgn_minus)

lemma binade:
  assumes "0 < x"
  shows "2 powr of_int \<lfloor>log 2 x\<rfloor> \<le> x" and "x < 2 powr of_int (\<lfloor>log 2 x\<rfloor> + 1)"
proof -
  have "of_int \<lfloor>log 2 x\<rfloor> \<le> log 2 x" by simp
  then show "2 powr of_int \<lfloor>log 2 x\<rfloor> \<le> x"
    using assms le_log_iff[of 2 x "of_int \<lfloor>log 2 x\<rfloor>"] by simp
  have "log 2 x < of_int (\<lfloor>log 2 x\<rfloor> + 1)" by linarith
  then show "x < 2 powr of_int (\<lfloor>log 2 x\<rfloor> + 1)"
    using assms log_less_iff[of 2 x "of_int (\<lfloor>log 2 x\<rfloor> + 1)"] by simp
qed

lemma fl_pos_range:
  assumes "0 < x"
  shows "2 powr of_int \<lfloor>log 2 x\<rfloor> \<le> fl x" and "fl x \<le> 2 powr of_int (\<lfloor>log 2 x\<rfloor> + 1)"
proof -
  define e where "e = \<lfloor>log 2 x\<rfloor>"
  define q :: real where "q = 2 powr of_int (e - 52)"
  have q: "0 < q" by (simp add: q_def)
  have fx: "fl x = of_int (round_half_even (x / q)) * q"
    using assms by (simp add: fl_def Let_def q_def e_def)
  have p52: "2 powr of_int e = 2 ^ 52 * q"
    by (simp add: q_def powr_diff)
  have p53: "2 powr of_int (e + 1) = 2 ^ 53 * q"
    by (simp add: q_def powr_diff powr_add)
  from binade[OF assms] have "2 ^ 52 * q \<le> x" "x < 2 ^ 53 * q"
    unfolding e_def[symmetric] p52 p53 by simp_all
  then have "of_int (2 ^ 52) \<le> x / q" "x / q \<le> of_int (2 ^ 53)"
    using q by (simp_all add: field_simps)
  then have "2 ^ 52 \<le> round_half_even (x / q)" "round_half_even (x / q) \<le> 2 ^ 53"
    by (simp_all only: rhe_ge rhe_le)
  then have "(2 ^ 52 :: real) \<le> of_int (round_half_even (x / q))"
    "of_int (round_half_even (x / q)) \<le> (2 ^ 53 :: real)"
    by (metis of_int_le_iff of_int_numeral of_int_power)+
  then show "2 powr of_int \<lfloor>log 2 x\<rfloor> \<le> fl x" "fl x \<le> 2 powr of_int (\<lfloor>log 2 x\<rfloor> + 1)"
    unfolding e_def[symmetric] p52 p53 fx using q by simp_all
qed

lemma fl_pos: "0 < x \<Longrightarrow> 0 < fl x"
proof -
  assume "0 < x"
  from fl_pos_range(1)[OF this] have "2 powr of_int \<lfloor>log 2 x\<rfloor> \<le> fl x" .
  moreover have "(0::real) < 2 powr of_int \<lfloor>log 2 x\<rfloor>" by simp
  ultimately show ?thesis by linarith
qed

lemma fl_mono_pos:
  assumes "0 < x" and "x \<le> y"
  shows "fl x \<le> fl y"
proof -
  have y: "0 < y" using assms by simp
  have le: "\<lfloor>log 2 x\<rfloor> \<le> \<lfloor>log 2 y\<rfloor>"
    using assms y by (intro floor_mono) simp
  show ?thesis
  proof (cases "\<lfloor>log 2 x\<rfloor> = \<lfloor>log 2 y\<rfloor>")
    case True
    define q :: real where "q = 2 powr of_int (\<lfloor>log 2 y\<rfloor> - 52)"
    have q: "0 < q" by (simp add: q_def)
    have "x / q \<le> y / q" using assms q by (simp add: divide_right_mono)
    then have "round_half_even (x / q) \<le> round_half_even (y / q)" by (rule rhe_mono)
    then have "of_int (round_half_even (x / q)) * q \<le> of_int (round_half_even (y / q)) * q"
      using q by simp
    then show ?thesis using assms y True by (simp add: fl_def Let_def q_def)
  next
    case False
    with le have "\<lfloor>log 2 x\<rfloor> + 1 \<le> \<lfloor>log 2 y\<rfloor>" by simp
    then have "(2::real) powr of_int (\<lfloor>log 2 x\<rfloor> + 1) \<le> 2 powr of_int \<lfloor>log 2 y\<rfloor>"
      by simp
    with fl_pos_range(2)[OF assms(1)] fl_pos_range(1)[OF y] show ?thesis by linarith
  qed
qed

lemma fl_mono: "x \<le> y \<Longrightarrow> fl x \<le> fl y"
proof -
  assume xy: "x \<le> y"
  consider "0 < x" | "x \<le> 0" "0 \<le> y" | "y < 0" by linarith
  then show ?thesis
  proof cases
    case 1
    from fl_mono_pos[OF 1 xy] show ?thesis .
  next
    case 2
    have "fl x \<le> 0"
    proof (cases "x = 0")
      case True then show ?thesis by simp
    next
      case False
      with 2 have "0 < - x" by simp
      from fl_pos[OF this] show ?thesis by simp
    qed
    moreover have "0 \<le> fl y"
    proof (cases "y = 0")
      case True then show ?thesis by simp
    next
      case False
      with 2 have "0 < y" by simp
      from fl_pos[OF this] show ?thesis by simp
    qed
    ultimately show ?thesis by simp
  next
    case 3
    then have "0 < - y" "- y \<le> - x" using xy by simp_all
    from fl_mono_pos[OF this] show ?thesis by simp
  qed
qed


lemma fl_exact:
  assumes "\<bar>m\<bar> < 2 ^ 53"
  shows "fl (of_int m * 2 powr of_int k) = of_int m * 2 powr of_int k"
proof (cases "m = 0")
  case True
  then show ?thesis by simp
next
  case False
  define a where "a = \<bar>m\<bar>"
  define L where "L = \<lfloor>log 2 (of_int a)\<rfloor>"
  define x :: real where "x = of_int m * 2 powr of_int k"
  have a1: "1 \<le> a" "a < 2 ^ 53" using False assms by (simp_all add: a_def)
  have ar: "(1::real) \<le> of_int a" "real_of_int a < 2 ^ 53"
    using a1 by (simp, metis of_int_less_iff of_int_numeral of_int_power)
  have absx: "\<bar>x\<bar> = of_int a * 2 powr of_int k"
    by (simp add: x_def a_def abs_mult)
  have "0 \<le> log 2 (of_int a)" using ar(1) by simp
  then have L0: "0 \<le> L" by (simp add: L_def)
  have "log 2 (of_int a) < 53"
    using ar log_less_iff[of 2 "of_int a" 53] by (simp add: powr_realpow)
  then have L52: "L \<le> 52" unfolding L_def by linarith
  have "log 2 \<bar>x\<bar> = log 2 (of_int a) + of_int k"
    unfolding absx using ar(1) by (simp add: log_mult)
  then have e: "\<lfloor>log 2 \<bar>x\<bar>\<rfloor> = L + k"
    by (simp add: L_def)
  define q :: real where "q = 2 powr of_int (L + k - 52)"
  have q: "0 < q" by (simp add: q_def)
  define N where "N = a * 2 ^ nat (52 - L)"
  have pw: "(2::real) powr of_int (52 - L) = 2 ^ nat (52 - L)"
    using L52 by (simp add: powr_realpow[symmetric])
  have "2 powr of_int k = 2 powr of_int (52 - L) * q"
    by (simp add: q_def powr_add[symmetric])
  then have xq: "\<bar>x\<bar> = of_int N * q"
    unfolding absx N_def pw by simp
  then have "\<bar>x\<bar> / q = of_int N" using q by simp
  then have "fl x = sgn x * (of_int N * q)"
    by (simp add: fl_def Let_def e q_def)
  also have "\<dots> = sgn x * \<bar>x\<bar>" by (simp add: xq)
  also have "\<dots> = x" by (simp add: sgn_mult_abs)
  finally show ?thesis by (simp add: x_def)
qed

lemma fl_int: "\<bar>k\<bar> < 2 ^ 53 \<Longrightarrow> fl (of_int k) = of_int k"
  using fl_exact[of k 0] by simp

lemma fl_numeral [simp]: "numeral n < (2::int) ^ 53 \<Longrightarrow> fl (numeral n) = numeral n"
  using fl_int[of "numeral n"] by simp

lemma fl_one [simp]: "fl 1 = 1"
  using fl_int[of 1] by simp

lemma fl_half [simp]: "fl (1 / 2) = 1 / 2"
  using fl_exact[of 1 "- 1"] by (simp add: powr_minus)

lemma fl_quarter [simp]: "fl (1 / 4) = 1 / 4"
  using fl_exact[of 1 "- 2"] by (simp add: powr_minus)

lemma fl_between:
  assumes "fl a = a" and "fl b = b" and "a \<le> x" and "x \<le> b"
  shows "a \<le> fl x" and "fl x \<le> b"
  using fl_mono[OF assms(3)] fl_mono[OF assms(4)] assms(1,2) by simp_all

lemma fl_eval:
  assumes "2 powr of_int e \<le> x" and "x < 2 powr of_int (e + 1)"
  shows "fl x = of_int (round_half_even (x / 2 powr of_int (e - 52))) * 2 powr of_int (e - 52)"
proof -
  have x: "0 < x" using assms(1) powr_gt_zero[of 2 "of_int e"] by linarith
  have "of_int e \<le> log 2 x" using assms(1) x le_log_iff[of 2 x "of_int e"] by simp
  moreover have "log 2 x < of_int e + 1"
    using assms(2) x log_less_iff[of 2 x "of_int (e + 1)"] by simp
  ultimately have "\<lfloor>log 2 x\<rfloor> = e" by (simp add: floor_unique)
  then show ?thesis using x by (simp add: fl_def Let_def)
qed

lemma pow2_values:
  "(2::real) powr of_int (- 54) = 1 / 2 ^ 54"
  "(2::real) powr of_int (- 1) = 1 / 2"
  "(2::real) powr of_int 14 = 2 ^ 14"
  "(2::real) powr of_int (14 + 1) = 2 ^ 15"
  "(2::real) powr of_int (14 - 52) = 1 / 2 ^ 38"
  using powr_int[of 2 "- 54"] powr_int[of 2 "- 1"] powr_int[of 2 14] powr_int[of 2 15]
    powr_int[of 2 "- 38"]
  by simp_all

text \<open>
  A draw close to 0 on which the product rounds to a tie: the sum is 30000.5 in doubles
  and below it in exact arithmetic.
\<close>

lemma near_tie_difference: "fl (150119987579 / 2 ^ 54 - 1 / 2) = - (9007049134753413 / 2 ^ 54)"
proof -
  have "fl (of_int 9007049134753413 * 2 powr of_int (- 54)) = of_int 9007049134753413 * 2 powr of_int (- 54)"
    by (rule fl_exact) simp
  then have "fl (9007049134753413 / 2 ^ 54) = 9007049134753413 / 2 ^ 54"
    unfolding pow2_values by simp
  moreover have "(150119987579 / 2 ^ 54 - 1 / 2 :: real) = - (9007049134753413 / 2 ^ 54)" by simp
  ultimately show ?thesis by (simp only: fl_minus)
qed

lemma near_tie_product: "fl (- (9007049134753413 / 2 ^ 54) * 60000) = - (59999 / 2)"
proof -
  define x :: real where "x = 9007049134753413 / 2 ^ 54 * 60000"
  have b: "2 powr of_int 14 \<le> x" "x < 2 powr of_int (14 + 1)"
    unfolding pow2_values by (simp_all add: x_def)
  have r: "round_half_even (x / (1 / 2 ^ 38)) = 8246199769366528"
    by (simp add: x_def round_half_even_def Let_def)
  have "fl x = 59999 / 2"
    unfolding fl_eval[OF b] pow2_values r by simp
  moreover have "- (9007049134753413 / 2 ^ 54) * 60000 = - x" by (simp add: x_def)
  ultimately show ?thesis by (simp only: fl_minus)
qed

lemma near_tie_sum: "fl (60000 + - (59999 / 2)) = 60001 / 2"
proof -
  have "fl (of_int 60001 * 2 powr of_int (- 1)) = of_int 60001 * 2 powr of_int (- 1)"
    by (rule fl_exact) simp
  then show ?thesis unfolding pow2_values by simp
qed

subsection \<open>Reconnect delays\<close>

lemma pow2_le_30: "((2::real) ^ n \<le> 30) = ((2::int) ^ n \<le> 30)"
proof -
  have "(of_int ((2::int) ^ n) :: real) \<le> of_int 30 \<longleftrightarrow> (2::int) ^ n \<le> 30"
    by (rule of_int_le_iff)
  then show ?thesis by simp
qed

lemma half_base_int:
  "(1 / 2) * min (1000 * 2 ^ n) (30000::real) = of_int (min (500 * 2 ^ n) 15000)"
  by (simp add: min_def pow2_le_30)

lemma three_half_base_int:
  "(3 / 2) * min (1000 * 2 ^ n) (30000::real) = of_int (min (1500 * 2 ^ n) 45000)"
  by (simp add: min_def pow2_le_30)

lemma round_between:
  fixes x :: real and lo hi :: int
  assumes "of_int lo \<le> x" "x \<le> of_int hi"
  shows "lo \<le> Math_round x \<and> Math_round x \<le> hi"
  using assms unfolding Math_round_def by (simp add: le_floor_iff floor_le_iff)

lemma jitter_range:
  fixes B r :: real
  assumes "0 \<le> B" and "0 \<le> r" and "r < 1"
    and "fl ((1 / 2) * B) = (1 / 2) * B" and "fl ((3 / 2) * B) = (3 / 2) * B"
  shows "(1 / 2) * B \<le> fl (B + fl (fl (r - 1 / 2) * B))"
    and "fl (B + fl (fl (r - 1 / 2) * B)) \<le> (3 / 2) * B"
proof -
  define t1 where "t1 = fl (r - 1 / 2)"
  define t2 where "t2 = fl (t1 * B)"
  have h: "fl (- (1 / 2)) = - (1 / 2)" "fl (1 / 2) = 1 / 2" by simp_all
  have "- (1 / 2) \<le> r - 1 / 2" "r - 1 / 2 \<le> 1 / 2" using assms(2,3) by simp_all
  from fl_between[OF h this] have t1: "- (1 / 2) \<le> t1" "t1 \<le> 1 / 2"
    by (simp_all add: t1_def)
  have nB: "fl (- ((1 / 2) * B)) = - ((1 / 2) * B)" using assms(4) by (simp only: fl_minus)
  have "- (1 / 2) * B \<le> t1 * B" using t1(1) assms(1) by (rule mult_right_mono)
  moreover have "t1 * B \<le> (1 / 2) * B" using t1(2) assms(1) by (rule mult_right_mono)
  ultimately have "- ((1 / 2) * B) \<le> t1 * B" "t1 * B \<le> (1 / 2) * B" by simp_all
  from fl_between[OF nB assms(4) this] have t2: "- ((1 / 2) * B) \<le> t2" "t2 \<le> (1 / 2) * B"
    by (simp_all add: t2_def)
  then have "(1 / 2) * B \<le> B + t2" "B + t2 \<le> (3 / 2) * B" by simp_all
  from fl_between[OF assms(4,5) this]
  show "(1 / 2) * B \<le> fl (B + fl (fl (r - 1 / 2) * B))"
    and "fl (B + fl (fl (r - 1 / 2) * B)) \<le> (3 / 2) * B"
    by (simp_all add: t2_def t1_def)
qed

lemma scheduleReconnect_timer:
  assumes "\<not> disposed st"
  shows "reconnectTimer (scheduleReconnect delayMs r st) =
           Some (Math_round
                  (fl ((case delayMs of Some d \<Rightarrow> d
                        | None \<Rightarrow> min (1000 * 2 ^ reconnectAttempts st) 30000)
                       + fl (fl (r - 1 / 2) *
                             (case delayMs of Some d \<Rightarrow> d
                              | None \<Rightarrow> min (1000 * 2 ^ reconnectAttempts st) 30000)))))"
    and "new_effects st (scheduleReconnect delayMs r st) =
           (case reconnectTimer st of None \<Rightarrow> [] | Some t \<Rightarrow> [ClearTimeout])
           @ [SetTimeout (the (reconnectTimer (scheduleReconnect delayMs r st)))]"
    and "reconnectAttempts (scheduleReconnect delayMs r st) = reconnectAttempts st + 1"
  using assms
  by (simp_all add: scheduleReconnect_def clearReconnectTimer_def perform_def Let_def
      MAX_BACKOFF_MS_def new_effects_def split: option.split)

text \<open>
  C6. A reconnect scheduled at the default backoff, with the attempt counter at \<open>n\<close> and
  the random source returning any \<open>r\<close> in \<open>[0, 1)\<close>, sets a timer whose rounded delay lies
  between \<open>0.5 \<times> min(1000 \<times> 2^n, 30000)\<close> and \<open>1.5 \<times> min(1000 \<times> 2^n, 30000)\<close> milliseconds.
\<close>

theorem backoff_within_jitter_bounds:
  assumes "\<not> disposed st" and "0 \<le> r" and "r < 1"
  shows "\<exists>d. reconnectTimer (scheduleReconnect None r st) = Some d
           \<and> SetTimeout d \<in> set (new_effects st (scheduleReconnect None r st))
           \<and> (1 / 2) * min (1000 * 2 ^ reconnectAttempts st) 30000 \<le> real_of_int d
           \<and> real_of_int d \<le> (3 / 2) * min (1000 * 2 ^ reconnectAttempts st) 30000"
proof -
  define B :: real where "B = min (1000 * 2 ^ reconnectAttempts st) 30000"
  define x where "x = fl (B + fl (fl (r - 1 / 2) * B))"
  have Bpos: "0 \<le> B" by (simp add: B_def)
  have ex: "fl ((1 / 2) * B) = (1 / 2) * B" "fl ((3 / 2) * B) = (3 / 2) * B"
    unfolding B_def half_base_int three_half_base_int
    by (rule fl_int, simp add: min_def)+
  have lo: "(1 / 2) * B \<le> x" and hi: "x \<le> (3 / 2) * B"
    unfolding x_def using jitter_range[OF Bpos assms(2,3) ex] by simp_all
  have b: "of_int (min (500 * 2 ^ reconnectAttempts st) 15000) \<le> x"
    "x \<le> of_int (min (1500 * 2 ^ reconnectAttempts st) 45000)"
    using lo hi unfolding B_def half_base_int three_half_base_int by simp_all
  have d: "reconnectTimer (scheduleReconnect None r st) = Some (Math_round x)"
    using scheduleReconnect_timer(1)[OF assms(1), of None r] by (simp add: x_def B_def)
  have e: "SetTimeout (Math_round x) \<in> set (new_effects st (scheduleReconnect None r st))"
    using scheduleReconnect_timer(2)[OF assms(1), of None r] d by simp
  from round_between[OF b]
  have "real_of_int (min (500 * 2 ^ reconnectAttempts st) 15000) \<le> real_of_int (Math_round x)"
    "real_of_int (Math_round x) \<le> real_of_int (min (1500 * 2 ^ reconnectAttempts st) 45000)"
    by (simp_all only: of_int_le_iff)
  then have "(1 / 2) * B \<le> real_of_int (Math_round x)"
    "real_of_int (Math_round x) \<le> (3 / 2) * B"
    unfolding B_def half_base_int three_half_base_int by simp_all
  with d e show ?thesis unfolding B_def by blast
qed

theorem backoff_within_jitter_bounds_witness:
  "\<not> disposed (GatewayClient ''http://h'') \<and> (0::real) \<le> 1 / 4 \<and> (1 / 4 :: real) < 1
   \<and> (\<exists>d. reconnectTimer (scheduleReconnect None (1 / 4) (GatewayClient ''http://h'')) = Some d
          \<and> 500 \<le> real_of_int d \<and> real_of_int d \<le> 1500)"
proof -
  have h: "\<not> disposed (GatewayClient ''http://h'')" by (simp add: GatewayClient_def)
  have n: "reconnectAttempts (GatewayClient ''http://h'') = 0" by (simp add: GatewayClient_def)
  from backoff_within_jitter_bounds[OF h, of "1 / 4"] n h show ?thesis by auto
qed

subsection \<open>How each method changes the state\<close>

lemma emit_loop_eq:
  "emit_loop hs d st =
     (st\<lparr>trace := trace st @ map (\<lambda>h. Invoke (fst h) d (seq st)) (called hs d)\<rparr>,
      if list_ex (\<lambda>h. snd h d = Throws) hs then Throws else Returns)"
proof (induction hs arbitrary: st)
  case Nil
  show ?case by simp
next
  case (Cons h hs)
  show ?case
  proof (cases "snd h d")
    case Returns
    then show ?thesis using Cons.IH[of "perform (Invoke (fst h) d (seq st)) st"]
      by (simp add: perform_def)
  next
    case Throws
    then show ?thesis by (simp add: perform_def)
  qed
qed

lemma called_all: "\<forall>h\<in>set hs. snd h d = Returns \<Longrightarrow> called hs d = hs"
  by (induction hs) simp_all

lemma emit_eq:
  "emit ev d st =
     (case listeners st ev of
        None \<Rightarrow> (st, Returns)
      | Some hs \<Rightarrow>
         (st\<lparr>trace := trace st @ map (\<lambda>h. Invoke (fst h) d (seq st)) (called hs d)\<rparr>,
          if list_ex (\<lambda>h. snd h d = Throws) hs then Throws else Returns))"
  by (simp add: emit_def emit_loop_eq split: option.split)

lemma nth_list_update_total:
  "xs[s := v] ! i = (if i = s \<and> s < length xs then v else xs ! i)"
  by (cases "s < length xs") (auto simp: nth_list_update list_update_beyond)

lemma filter_send_invokes [simp]: "filter is_send (map (\<lambda>h. Invoke (f h) d s) hs) = []"
  by (induction hs) simp_all

lemma filter_starts_invokes [simp]: "filter starts (map (\<lambda>h. Invoke (f h) d s) hs) = []"
  by (induction hs) simp_all

lemma perform_fields [simp]:
  "baseUrl (perform e st) = baseUrl st"
  "ws (perform e st) = ws st"
  "heartbeatTimer (perform e st) = heartbeatTimer st"
  "heartbeatAckReceived (perform e st) = heartbeatAckReceived st"
  "reconnectTimer (perform e st) = reconnectTimer st"
  "reconnectAttempts (perform e st) = reconnectAttempts st"
  "sessionId (perform e st) = sessionId st"
  "seq (perform e st) = seq st"
  "intentionalClose (perform e st) = intentionalClose st"
  "disposed (perform e st) = disposed st"
  "listeners (perform e st) = listeners st"
  "sockets (perform e st) = sockets st"
  "pending (perform e st) = pending st"
  "trace (perform e st) = trace st @ [e]"
  by (simp_all add: perform_def)

lemma ws_close_fields [simp]:
  "baseUrl (ws_close s c st) = baseUrl st"
  "ws (ws_close s c st) = ws st"
  "heartbeatTimer (ws_close s c st) = heartbeatTimer st"
  "heartbeatAckReceived (ws_close s c st) = heartbeatAckReceived st"
  "reconnectTimer (ws_close s c st) = reconnectTimer st"
  "reconnectAttempts (ws_close s c st) = reconnectAttempts st"
  "sessionId (ws_close s c st) = sessionId st"
  "seq (ws_close s c st) = seq st"
  "intentionalClose (ws_close s c st) = intentionalClose st"
  "disposed (ws_close s c st) = disposed st"
  "listeners (ws_close s c st) = listeners st"
  "length (sockets (ws_close s c st)) = length (sockets st)"
  "pending (ws_close s c st) = pending st"
  "trace (ws_close s c st) = trace st @ [WsClose s c]"
  by (simp_all add: ws_close_def Let_def nth_list_update)

lemma close_current_fields [simp]:
  "baseUrl (close_current c st) = baseUrl st"
  "ws (close_current c st) = ws st"
  "heartbeatTimer (close_current c st) = heartbeatTimer st"
  "heartbeatAckReceived (close_current c st) = heartbeatAckReceived st"
  "reconnectTimer (close_current c st) = reconnectTimer st"
  "reconnectAttempts (close_current c st) = reconnectAttempts st"
  "sessionId (close_current c st) = sessionId st"
  "seq (close_current c st) = seq st"
  "intentionalClose (close_current c st) = intentionalClose st"
  "disposed (close_current c st) = disposed st"
  "listeners (close_current c st) = listeners st"
  "length (sockets (close_current c st)) = length (sockets st)"
  "pending (close_current c st) = pending st"
  "trace (close_current c st) = trace st @ (case ws st of None \<Rightarrow> [] | Some s \<Rightarrow> [WsClose s c])"
  by (simp_all add: close_current_def split: option.split)

lemma stopHeartbeat_fields [simp]:
  "baseUrl (stopHeartbeat st) = baseUrl st"
  "ws (stopHeartbeat st) = ws st"
  "heartbeatTimer (stopHeartbeat st) = None"
  "heartbeatAckReceived (stopHeartbeat st) = heartbeatAckReceived st"
  "reconnectTimer (stopHeartbeat st) = reconnectTimer st"
  "reconnectAttempts (stopHeartbeat st) = reconnectAttempts st"
  "sessionId (stopHeartbeat st) = sessionId st"
  "seq (stopHeartbeat st) = seq st"
  "intentionalClose (stopHeartbeat st) = intentionalClose st"
  "disposed (stopHeartbeat st) = disposed st"
  "listeners (stopHeartbeat st) = listeners st"
  "sockets (stopHeartbeat st) = sockets st"
  "pending (stopHeartbeat st) = pending st"
  "trace (stopHeartbeat st) = trace st @ (case heartbeatTimer st of None \<Rightarrow> [] | Some t \<Rightarrow> [ClearInterval])"
  by (simp_all add: stopHeartbeat_def split: option.split)

lemma clearReconnectTimer_fields [simp]:
  "baseUrl (clearReconnectTimer st) = baseUrl st"
  "ws (clearReconnectTimer st) = ws st"
  "heartbeatTimer (clearReconnectTimer st) = heartbeatTimer st"
  "heartbeatAckReceived (clearReconnectTimer st) = heartbeatAckReceived st"
  "reconnectTimer (clearReconnectTimer st) = None"
  "reconnectAttempts (clearReconnectTimer st) = reconnectAttempts st"
  "sessionId (clearReconnectTimer st) = sessionId st"
  "seq (clearReconnectTimer st) = seq st"
  "intentionalClose (clearReconnectTimer st) = intentionalClose st"
  "disposed (clearReconnectTimer st) = disposed st"
  "listeners (clearReconnectTimer st) = listeners st"
  "sockets (clearReconnectTimer st) = sockets st"
  "pending (clearReconnectTimer st) = pending st"
  "trace (clearReconnectTimer st) = trace st @ (case reconnectTimer st of None \<Rightarrow> [] | Some t \<Rightarrow> [ClearTimeout])"
  by (simp_all add: clearReconnectTimer_def split: option.split)

lemma cleanup_fields [simp]:
  "baseUrl (cleanup st) = baseUrl st"
  "ws (cleanup st) = ws st"
  "heartbeatTimer (cleanup st) = None"
  "heartbeatAckReceived (cleanup st) = heartbeatAckReceived st"
  "reconnectTimer (cleanup st) = reconnectTimer st"
  "reconnectAttempts (cleanup st) = reconnectAttempts st"
  "sessionId (cleanup st) = sessionId st"
  "seq (cleanup st) = seq st"
  "intentionalClose (cleanup st) = intentionalClose st"
  "disposed (cleanup st) = disposed st"
  "listeners (cleanup st) = listeners st"
  "length (sockets (cleanup st)) = length (sockets st)"
  "readyState (sockets (cleanup st) ! i) = readyState (sockets st ! i)"
  "pending (cleanup st) = pending st"
  "trace (cleanup st) = trace st @ (case heartbeatTimer st of None \<Rightarrow> [] | Some t \<Rightarrow> [ClearInterval])"
  by (auto simp: cleanup_def Let_def nth_list_update_total split: option.split)

lemma send_fields [simp]:
  "baseUrl (send frame st) = baseUrl st"
  "ws (send frame st) = ws st"
  "heartbeatTimer (send frame st) = heartbeatTimer st"
  "heartbeatAckReceived (send frame st) = heartbeatAckReceived st"
  "reconnectTimer (send frame st) = reconnectTimer st"
  "reconnectAttempts (send frame st) = reconnectAttempts st"
  "sessionId (send frame st) = sessionId st"
  "seq (send frame st) = seq st"
  "intentionalClose (send frame st) = intentionalClose st"
  "disposed (send frame st) = disposed st"
  "listeners (send frame st) = listeners st"
  "sockets (send frame st) = sockets st"
  "pending (send frame st) = pending st"
  "trace (send frame st) = trace st @ (if socket_open st then [WsSend (the (ws st)) frame] else [])"
  by (simp_all add: send_def socket_open_def split: option.split)

lemma startHeartbeat_fields [simp]:
  "baseUrl (startHeartbeat ms st) = baseUrl st"
  "ws (startHeartbeat ms st) = ws st"
  "heartbeatTimer (startHeartbeat ms st) = Some ms"
  "heartbeatAckReceived (startHeartbeat ms st) = True"
  "reconnectTimer (startHeartbeat ms st) = reconnectTimer st"
  "reconnectAttempts (startHeartbeat ms st) = reconnectAttempts st"
  "sessionId (startHeartbeat ms st) = sessionId st"
  "seq (startHeartbeat ms st) = seq st"
  "intentionalClose (startHeartbeat ms st) = intentionalClose st"
  "disposed (startHeartbeat ms st) = disposed st"
  "listeners (startHeartbeat ms st) = listeners st"
  "sockets (startHeartbeat ms st) = sockets st"
  "pending (startHeartbeat ms st) = pending st"
  "trace (startHeartbeat ms st) = trace st @ (case heartbeatTimer st of None \<Rightarrow> [] | Some t \<Rightarrow> [ClearInterval]) @ [SetInterval ms]"
  by (simp_all add: startHeartbeat_def Let_def)

lemma emit_fields [simp]:
  "baseUrl (fst (emit ev d st)) = baseUrl st"
  "ws (fst (emit ev d st)) = ws st"
  "heartbeatTimer (fst (emit ev d st)) = heartbeatTimer st"
  "heartbeatAckReceived (fst (emit ev d st)) = heartbeatAckReceived st"
  "reconnectTimer (fst (emit ev d st)) = reconnectTimer st"
  "reconnectAttempts (fst (emit ev d st)) = reconnectAttempts st"
  "sessionId (fst (emit ev d st)) = sessionId st"
  "seq (fst (emit ev d st)) = seq st"
  "intentionalClose (fst (emit ev d st)) = intentionalClose st"
  "disposed (fst (emit ev d st)) = disposed st"
  "listeners (fst (emit ev d st)) = listeners st"
  "sockets (fst (emit ev d st)) = sockets st"
  "pending (fst (emit ev d st)) = pending st"
  by (simp_all add: emit_eq split: option.split)

lemma emit_trace:
  "trace (fst (emit ev d st)) =
     trace st @ (case listeners st ev of
                   None \<Rightarrow> []
                 | Some hs \<Rightarrow> map (\<lambda>h. Invoke (fst h) d (seq st)) (called hs d))"
  by (simp add: emit_eq split: option.split)

lemma scheduleReconnect_fields [simp]:
  "baseUrl (scheduleReconnect dl r st) = baseUrl st"
  "ws (scheduleReconnect dl r st) = ws st"
  "heartbeatTimer (scheduleReconnect dl r st) = heartbeatTimer st"
  "heartbeatAckReceived (scheduleReconnect dl r st) = heartbeatAckReceived st"
  "sessionId (scheduleReconnect dl r st) = sessionId st"
  "seq (scheduleReconnect dl r st) = seq st"
  "intentionalClose (scheduleReconnect dl r st) = intentionalClose st"
  "disposed (scheduleReconnect dl r st) = disposed st"
  "listeners (scheduleReconnect dl r st) = listeners st"
  "sockets (scheduleReconnect dl r st) = sockets st"
  "pending (scheduleReconnect dl r st) = pending st"
  "filter is_send (trace (scheduleReconnect dl r st)) = filter is_send (trace st)"
  by (simp_all add: scheduleReconnect_def Let_def split: option.split)

lemma handleHello_await_fields [simp]:
  "baseUrl (handleHello_await data st) = baseUrl st"
  "ws (handleHello_await data st) = ws st"
  "heartbeatTimer (handleHello_await data st) = heartbeatTimer st"
  "heartbeatAckReceived (handleHello_await data st) = heartbeatAckReceived st"
  "reconnectTimer (handleHello_await data st) = reconnectTimer st"
  "reconnectAttempts (handleHello_await data st) = reconnectAttempts st"
  "sessionId (handleHello_await data st) = sessionId st"
  "seq (handleHello_await data st) = seq st"
  "intentionalClose (handleHello_await data st) = intentionalClose st"
  "disposed (handleHello_await data st) = disposed st"
  "listeners (handleHello_await data st) = listeners st"
  "sockets (handleHello_await data st) = sockets st"
  "pending (handleHello_await data st) = pending st @ [data]"
  "trace (handleHello_await data st) = trace st @ [GetToken]"
  by (simp_all add: handleHello_await_def)

lemma store_session_id_fields [simp]:
  "baseUrl (store_session_id d st) = baseUrl st"
  "ws (store_session_id d st) = ws st"
  "heartbeatTimer (store_session_id d st) = heartbeatTimer st"
  "heartbeatAckReceived (store_session_id d st) = heartbeatAckReceived st"
  "reconnectTimer (store_session_id d st) = reconnectTimer st"
  "reconnectAttempts (store_session_id d st) = reconnectAttempts st"
  "seq (store_session_id d st) = seq st"
  "intentionalClose (store_session_id d st) = intentionalClose st"
  "disposed (store_session_id d st) = disposed st"
  "listeners (store_session_id d st) = listeners st"
  "sockets (store_session_id d st) = sockets st"
  "pending (store_session_id d st) = pending st"
  "trace (store_session_id d st) = trace st"
  by (simp_all add: store_session_id_def split: option.split)

lemma onopen_fields [simp]:
  "baseUrl (onopen st) = baseUrl st"
  "ws (onopen st) = ws st"
  "heartbeatTimer (onopen st) = heartbeatTimer st"
  "heartbeatAckReceived (onopen st) = heartbeatAckReceived st"
  "reconnectTimer (onopen st) = reconnectTimer st"
  "reconnectAttempts (onopen st) = 0"
  "sessionId (onopen st) = sessionId st"
  "seq (onopen st) = seq st"
  "intentionalClose (onopen st) = intentionalClose st"
  "disposed (onopen st) = disposed st"
  "listeners (onopen st) = listeners st"
  "sockets (onopen st) = sockets st"
  "pending (onopen st) = pending st"
  "trace (onopen st) = trace st"
  by (simp_all add: onopen_def)

lemma on_event_fields [simp]:
  "baseUrl (on_event ev h st) = baseUrl st"
  "ws (on_event ev h st) = ws st"
  "heartbeatTimer (on_event ev h st) = heartbeatTimer st"
  "heartbeatAckReceived (on_event ev h st) = heartbeatAckReceived st"
  "reconnectTimer (on_event ev h st) = reconnectTimer st"
  "reconnectAttempts (on_event ev h st) = reconnectAttempts st"
  "sessionId (on_event ev h st) = sessionId st"
  "seq (on_event ev h st) = seq st"
  "intentionalClose (on_event ev h st) = intentionalClose st"
  "disposed (on_event ev h st) = disposed st"
  "sockets (on_event ev h st) = sockets st"
  "pending (on_event ev h st) = pending st"
  "trace (on_event ev h st) = trace st"
  by (simp_all add: on_event_def Let_def)

lemma set_readyState_fields [simp]:
  "baseUrl (set_readyState s rs st) = baseUrl st"
  "ws (set_readyState s rs st) = ws st"
  "heartbeatTimer (set_readyState s rs st) = heartbeatTimer st"
  "heartbeatAckReceived (set_readyState s rs st) = heartbeatAckReceived st"
  "reconnectTimer (set_readyState s rs st) = reconnectTimer st"
  "reconnectAttempts (set_readyState s rs st) = reconnectAttempts st"
  "sessionId (set_readyState s rs st) = sessionId st"
  "seq (set_readyState s rs st) = seq st"
  "intentionalClose (set_readyState s rs st) = intentionalClose st"
  "disposed (set_readyState s rs st) = disposed st"
  "listeners (set_readyState s rs st) = listeners st"
  "length (sockets (set_readyState s rs st)) = length (sockets st)"
  "pending (set_readyState s rs st) = pending st"
  "trace (set_readyState s rs st) = trace st"
  by (simp_all add: set_readyState_def nth_list_update)

lemma sendPresenceUpdate_fields [simp]:
  "baseUrl (sendPresenceUpdate status st) = baseUrl st"
  "ws (sendPresenceUpdate status st) = ws st"
  "heartbeatTimer (sendPresenceUpdate status st) = heartbeatTimer st"
  "heartbeatAckReceived (sendPresenceUpdate status st) = heartbeatAckReceived st"
  "reconnectTimer (sendPresenceUpdate status st) = reconnectTimer st"
  "reconnectAttempts (sendPresenceUpdate status st) = reconnectAttempts st"
  "sessionId (sendPresenceUpdate status st) = sessionId st"
  "seq (sendPresenceUpdate status st) = seq st"
  "intentionalClose (sendPresenceUpdate status st) = intentionalClose st"
  "disposed (sendPresenceUpdate status st) = disposed st"
  "listeners (sendPresenceUpdate status st) = listeners st"
  "sockets (sendPresenceUpdate status st) = sockets st"
  "pending (sendPresenceUpdate status st) = pending st"
  "trace (sendPresenceUpdate status st) = trace st @ (if socket_open st then [WsSend (the (ws st)) (presence_frame status)] else [])"
  by (simp_all add: sendPresenceUpdate_def)


lemma emit_filters [simp]:
  "filter is_send (trace (fst (emit ev d st))) = filter is_send (trace st)"
  "filter starts (trace (fst (emit ev d st))) = filter starts (trace st)"
  by (simp_all add: emit_trace split: option.split)

lemma uncaught_fields [simp]:
  "baseUrl (uncaught res) = baseUrl (fst res)"
  "disposed (uncaught res) = disposed (fst res)"
  "ws (uncaught res) = ws (fst res)"
  "sockets (uncaught res) = sockets (fst res)"
  "heartbeatTimer (uncaught res) = heartbeatTimer (fst res)"
  "reconnectTimer (uncaught res) = reconnectTimer (fst res)"
  "pending (uncaught res) = pending (fst res)"
  "sessionId (uncaught res) = sessionId (fst res)"
  "seq (uncaught res) = seq (fst res)"
  "filter is_send (trace (uncaught res)) = filter is_send (trace (fst res))"
  "filter starts (trace (uncaught res)) = filter starts (trace (fst res))"
  by (simp_all add: uncaught_def case_prod_beta split: outcome.split)

lemma onclose_fields [simp]:
  "baseUrl (fst (onclose s code reason r st)) = baseUrl st"
  "disposed (fst (onclose s code reason r st)) = disposed st"
  "ws (fst (onclose s code reason r st)) = ws st"
  "length (sockets (fst (onclose s code reason r st))) = length (sockets st)"
  "heartbeatTimer (fst (onclose s code reason r st)) = None"
  "pending (fst (onclose s code reason r st)) = pending st"
  "filter is_send (trace (fst (onclose s code reason r st))) = filter is_send (trace st)"
  by (simp_all add: onclose_def Let_def case_prod_beta split: outcome.split)

lemma onclose_session:
  "sessionId (fst (onclose s code reason r st)) = sessionId st
   \<or> sessionId (fst (onclose s code reason r st)) = JNull"
  by (simp add: onclose_def Let_def case_prod_beta split: outcome.split)

lemma store_session_id_ok:
  "sessionId (store_session_id d st) = sessionId st
   \<or> truthy (Some (sessionId (store_session_id d st)))"
  by (simp add: store_session_id_def split: option.split)

lemma track_seq_fields [simp]:
  "baseUrl (track_seq frame st) = baseUrl st"
  "ws (track_seq frame st) = ws st"
  "heartbeatTimer (track_seq frame st) = heartbeatTimer st"
  "heartbeatAckReceived (track_seq frame st) = heartbeatAckReceived st"
  "reconnectTimer (track_seq frame st) = reconnectTimer st"
  "reconnectAttempts (track_seq frame st) = reconnectAttempts st"
  "sessionId (track_seq frame st) = sessionId st"
  "intentionalClose (track_seq frame st) = intentionalClose st"
  "disposed (track_seq frame st) = disposed st"
  "listeners (track_seq frame st) = listeners st"
  "sockets (track_seq frame st) = sockets st"
  "pending (track_seq frame st) = pending st"
  "trace (track_seq frame st) = trace st"
  by (simp_all add: track_seq_def split: option.split)

lemma handleDispatch_cases:
  "\<exists>st2. (st2 = track_seq frame st
           \<or> st2 = fst (emit ''open'' (get_prop frame ''d'')
                         (store_session_id (get_prop frame ''d'') (track_seq frame st))))
     \<and> (fst (handleDispatch frame st) = st2
          \<or> (\<exists>t. fst (handleDispatch frame st) = fst (emit t (get_prop frame ''d'') st2)))"
proof -
  define st1 where "st1 = track_seq frame st"
  define res where
    "res = (if get_prop frame ''t'' = Some (JStr ''READY'') \<and> isReadyData (get_prop frame ''d'')
            then emit ''open'' (get_prop frame ''d'') (store_session_id (get_prop frame ''d'') st1)
            else (st1, Returns))"
  have b: "fst res = st1 \<or> fst res = fst (emit ''open'' (get_prop frame ''d'')
                                (store_session_id (get_prop frame ''d'') st1))"
    by (simp add: res_def)
  have "handleDispatch frame st =
          (case res of (st2, Throws) \<Rightarrow> (st2, Throws)
           | (st2, Returns) \<Rightarrow>
              (case get_prop frame ''t'' of
                Some (JStr t) \<Rightarrow> if t \<noteq> [] then emit t (get_prop frame ''d'') st2 else (st2, Returns)
              | _ \<Rightarrow> (st2, Returns)))"
    unfolding handleDispatch_def Let_def res_def st1_def ..
  then have "fst (handleDispatch frame st)
               \<in> insert (fst res) (range (\<lambda>t. fst (emit t (get_prop frame ''d'') (fst res))))"
    by (cases res) (simp split: outcome.split option.split json.split)
  then have c: "fst (handleDispatch frame st) = fst res
          \<or> (\<exists>t. fst (handleDispatch frame st) = fst (emit t (get_prop frame ''d'') (fst res)))"
    by blast
  from b c show ?thesis unfolding st1_def by blast
qed

lemma handleDispatch_fields [simp]:
  "baseUrl (fst (handleDispatch frame st)) = baseUrl st"
  "disposed (fst (handleDispatch frame st)) = disposed st"
  "ws (fst (handleDispatch frame st)) = ws st"
  "sockets (fst (handleDispatch frame st)) = sockets st"
  "heartbeatTimer (fst (handleDispatch frame st)) = heartbeatTimer st"
  "reconnectTimer (fst (handleDispatch frame st)) = reconnectTimer st"
  "pending (fst (handleDispatch frame st)) = pending st"
  "filter is_send (trace (fst (handleDispatch frame st))) = filter is_send (trace st)"
  "filter starts (trace (fst (handleDispatch frame st))) = filter starts (trace st)"
  using handleDispatch_cases[of frame st] by auto

lemma handleDispatch_session:
  "sessionId (fst (handleDispatch frame st)) = sessionId st
   \<or> truthy (Some (sessionId (fst (handleDispatch frame st))))"
proof -
  from handleDispatch_cases[of frame st] obtain st2 where
    b: "st2 = track_seq frame st
        \<or> st2 = fst (emit ''open'' (get_prop frame ''d'')
                      (store_session_id (get_prop frame ''d'') (track_seq frame st)))" and
    c: "fst (handleDispatch frame st) = st2
          \<or> (\<exists>t. fst (handleDispatch frame st) = fst (emit t (get_prop frame ''d'') st2))"
    by blast
  from b have "sessionId st2 = sessionId (track_seq frame st)
      \<or> sessionId st2 = sessionId (store_session_id (get_prop frame ''d'') (track_seq frame st))"
    by auto
  with store_session_id_ok[of "get_prop frame ''d''" "track_seq frame st"]
  have "sessionId st2 = sessionId st \<or> truthy (Some (sessionId st2))" by auto
  moreover from c have "sessionId (fst (handleDispatch frame st)) = sessionId st2" by auto
  ultimately show ?thesis by simp
qed

lemma handleMessage_cases:
  assumes "P st" and "P (perform ConsoleWarn st)" and "\<And>d. P (handleHello_await d st)"
    and "\<And>frame. P (fst (handleDispatch frame st))"
    and "P (st\<lparr>heartbeatAckReceived := True\<rparr>)"
    and "P (close_current 4000 st)"
    and "P (close_current 4000 (st\<lparr>sessionId := JNull, seq := JNull\<rparr>))"
  shows "P (fst (handleMessage raw st))"
  unfolding handleMessage_def Let_def
  using assms by (simp split: parsed.split option.split json.split)

lemma handleMessage_fields [simp]:
  "baseUrl (fst (handleMessage raw st)) = baseUrl st"
  "disposed (fst (handleMessage raw st)) = disposed st"
  "ws (fst (handleMessage raw st)) = ws st"
  "length (sockets (fst (handleMessage raw st))) = length (sockets st)"
  "heartbeatTimer (fst (handleMessage raw st)) = heartbeatTimer st"
  "reconnectTimer (fst (handleMessage raw st)) = reconnectTimer st"
  "filter is_send (trace (fst (handleMessage raw st))) = filter is_send (trace st)"
  "filter starts (trace (fst (handleMessage raw st))) = filter starts (trace st)"
  by (rule handleMessage_cases; simp split: option.split)+

lemma handleMessage_session:
  "sessionId (fst (handleMessage raw st)) = sessionId st
   \<or> sessionId (fst (handleMessage raw st)) = JNull
   \<or> truthy (Some (sessionId (fst (handleMessage raw st))))"
  by (rule handleMessage_cases) (use handleDispatch_session[of _ st] in auto)

lemma heartbeatTick_fields [simp]:
  "baseUrl (heartbeatTick st) = baseUrl st"
  "disposed (heartbeatTick st) = disposed st"
  "ws (heartbeatTick st) = ws st"
  "length (sockets (heartbeatTick st)) = length (sockets st)"
  "heartbeatTimer (heartbeatTick st) = heartbeatTimer st"
  "reconnectTimer (heartbeatTick st) = reconnectTimer st"
  "pending (heartbeatTick st) = pending st"
  "sessionId (heartbeatTick st) = sessionId st"
  "seq (heartbeatTick st) = seq st"
  "filter starts (trace (heartbeatTick st)) = filter starts (trace st)"
  by (simp_all add: heartbeatTick_def split: option.split)

lemma socket_open_cong:
  "ws st' = ws st \<Longrightarrow> sockets st' = sockets st \<Longrightarrow> socket_open st' = socket_open st"
  by (simp add: socket_open_def split: option.split)

lemma heartbeatTick_sent:
  "filter is_send (trace (heartbeatTick st)) =
     filter is_send (trace st)
     @ (if heartbeatAckReceived st \<and> socket_open st then [WsSend (the (ws st)) heartbeat_frame] else [])"
  by (simp add: heartbeatTick_def socket_open_def split: option.split)

lemma handleHello_resumed_fields [simp]:
  "baseUrl (handleHello_resumed data token st) = baseUrl st"
  "disposed (handleHello_resumed data token st) = disposed st"
  "ws (handleHello_resumed data token st) = ws st"
  "length (sockets (handleHello_resumed data token st)) = length (sockets st)"
  "heartbeatTimer (handleHello_resumed data token st) =
     (if disposed st then heartbeatTimer st else Some (heartbeat_interval data))"
  "reconnectTimer (handleHello_resumed data token st) = reconnectTimer st"
  "pending (handleHello_resumed data token st) = pending st"
  "sessionId (handleHello_resumed data token st) = sessionId st"
  "seq (handleHello_resumed data token st) = seq st"
  by (simp_all add: handleHello_resumed_def Let_def split: option.split)

lemma handleHello_resumed_sent:
  "\<not> socket_open st \<Longrightarrow>
   filter is_send (trace (handleHello_resumed data token st)) = filter is_send (trace st)"
  by (auto simp: handleHello_resumed_def Let_def socket_open_def split: option.split)

lemma connect_disposed: "disposed st \<Longrightarrow> connect st = st"
  by (simp add: connect_def)

lemma connect_fields [simp]:
  "baseUrl (connect st) = baseUrl st"
  "disposed (connect st) = disposed st"
  "pending (connect st) = pending st"
  "sessionId (connect st) = sessionId st"
  "seq (connect st) = seq st"
  "filter is_send (trace (connect st)) = filter is_send (trace st)"
  by (simp_all add: connect_def Let_def split: option.split)

lemma connect_live:
  assumes "\<not> disposed st"
  shows "ws (connect st) = Some (length (sockets st))"
    and "length (sockets (connect st)) = Suc (length (sockets st))"
    and "heartbeatTimer (connect st) = (case ws st of None \<Rightarrow> heartbeatTimer st | Some s \<Rightarrow> None)"
  using assms by (simp_all add: connect_def Let_def split: option.split)

lemma disconnect_fields [simp]:
  "baseUrl (disconnect st) = baseUrl st"
  "disposed (disconnect st) = True"
  "intentionalClose (disconnect st) = True"
  "ws (disconnect st) = None"
  "heartbeatTimer (disconnect st) = None"
  "reconnectTimer (disconnect st) = None"
  "length (sockets (disconnect st)) = length (sockets st)"
  "pending (disconnect st) = pending st"
  "sessionId (disconnect st) = sessionId st"
  "seq (disconnect st) = seq st"
  "filter is_send (trace (disconnect st)) = filter is_send (trace st)"
  "filter starts (trace (disconnect st)) = filter starts (trace st)"
  by (simp_all add: disconnect_def Let_def split: option.split)


lemma wellformed_uncaught: "wellformed (uncaught res) = wellformed (fst res)"
  by (simp add: wellformed_def split: option.split)

lemma wellformed_connect: "wellformed st \<Longrightarrow> wellformed (connect st)"
  by (cases "disposed st") (simp_all add: connect_disposed wellformed_def connect_live split: option.split)

lemma wellformed_disconnect: "wellformed st \<Longrightarrow> wellformed (disconnect st)"
  by (simp add: wellformed_def split: option.split)

lemma wellformed_handleMessage:
  assumes "wellformed st" and "sockets st \<noteq> []"
  shows "wellformed (fst (handleMessage raw st))"
proof -
  have "length (sockets (fst (handleMessage raw st))) \<noteq> 0" using assms(2) by simp
  with assms(1) handleMessage_session[of raw st] show ?thesis
    by (auto simp: wellformed_def split: option.split)
qed

lemma wellformed_onclose:
  assumes "wellformed st" and "sockets st \<noteq> []"
  shows "wellformed (fst (onclose s code reason r st))"
proof -
  have "length (sockets (fst (onclose s code reason r st))) \<noteq> 0" using assms(2) by simp
  with assms(1) onclose_session[of s code reason r st] show ?thesis
    by (auto simp: wellformed_def split: option.split)
qed

lemma wellformed_heartbeatTick: "wellformed st \<Longrightarrow> wellformed (heartbeatTick st)"
proof -
  assume w: "wellformed st"
  have "(sockets (heartbeatTick st) = []) = (sockets st = [])"
    using heartbeatTick_fields(4)[of st] by (metis length_0_conv)
  with w show ?thesis by (auto simp: wellformed_def split: option.split)
qed

lemma wellformed_resumed:
  assumes "wellformed st" and "disposed st \<or> ws st \<noteq> None"
  shows "wellformed (handleHello_resumed data token st)"
  using assms by (auto simp: wellformed_def split: option.split)

lemma wellformed_step: "wellformed st \<Longrightarrow> wellformed (step ev st)"
proof (cases ev)
  case Connect
  assume "wellformed st" with Connect show ?thesis by (simp add: wellformed_connect)
next
  case Disconnect
  assume "wellformed st" with Disconnect show ?thesis by (simp add: wellformed_disconnect)
next
  case (SendPresenceUpdate status)
  assume "wellformed st" with SendPresenceUpdate show ?thesis
    by (simp add: wellformed_def)
next
  case (On k i h)
  assume "wellformed st" with On show ?thesis
    by (simp add: wellformed_def)
next
  case (SocketOpens s)
  assume w: "wellformed st"
  have "wellformed (set_readyState s OPEN st)"
    using w by (auto simp: wellformed_def set_readyState_def split: option.split)
  then have "wellformed (onopen (set_readyState s OPEN st))"
    by (simp add: wellformed_def split: option.split)
  with SocketOpens w \<open>wellformed (set_readyState s OPEN st)\<close> show ?thesis by (simp add: Let_def)
next
  case (SocketMessage s raw)
  assume w: "wellformed st"
  show ?thesis
  proof (cases "s < length (sockets st)")
    case True
    then have "sockets st \<noteq> []" by auto
    with w SocketMessage show ?thesis
      by (simp add: wellformed_uncaught wellformed_handleMessage)
  next
    case False
    with w SocketMessage show ?thesis by simp
  qed
next
  case (SocketCloses s code reason r)
  assume w: "wellformed st"
  show ?thesis
  proof (cases "s < length (sockets st)")
    case True
    have w1: "wellformed (set_readyState s CLOSED st)"
      using w by (auto simp: wellformed_def set_readyState_def split: option.split)
    have "sockets (set_readyState s CLOSED st) \<noteq> []" using True by (auto simp: set_readyState_def)
    with w1 have "wellformed (fst (onclose s code reason r (set_readyState s CLOSED st)))"
      by (rule wellformed_onclose)
    with w w1 SocketCloses show ?thesis by (simp add: Let_def wellformed_uncaught)
  next
    case False
    with w SocketCloses show ?thesis by simp
  qed
next
  case (SocketError s)
  assume "wellformed st" with SocketError show ?thesis by simp
next
  case HeartbeatFires
  assume "wellformed st" with HeartbeatFires show ?thesis by (simp add: wellformed_heartbeatTick)
next
  case ReconnectFires
  assume "wellformed st" with ReconnectFires show ?thesis by (simp add: wellformed_connect)
next
  case (TokenSettles i res)
  assume w: "wellformed st"
  show ?thesis
  proof (cases "i < length (pending st)")
    case True
    define st1 where "st1 = st\<lparr>pending := take i (pending st) @ drop (Suc i) (pending st)\<rparr>"
    from True have "pending st \<noteq> []" by auto
    with w have live: "disposed st \<or> ws st \<noteq> None" by (auto simp: wellformed_def)
    have w1: "wellformed st1" using w live by (auto simp: wellformed_def st1_def split: option.split)
    have live1: "disposed st1 \<or> ws st1 \<noteq> None" using live by (simp add: st1_def)
    have "wellformed (handleHello_resumed (pending st ! i) token st1)" for token
      using w1 live1 by (rule wellformed_resumed)
    with w1 True TokenSettles show ?thesis
      by (simp add: Let_def st1_def[symmetric] split: token_result.split)
  next
    case False
    with w TokenSettles show ?thesis by simp
  qed
qed

lemma wellformed_init: "wellformed (GatewayClient b)"
  by (simp add: wellformed_def GatewayClient_def)

lemma run_Nil [simp]: "run [] st = st"
  by (simp add: run_def)

lemma run_Cons [simp]: "run (ev # evs) st = run evs (step ev st)"
  by (simp add: run_def)

lemma run_append: "run (evs @ evs') st = run evs' (run evs st)"
  by (simp add: run_def)

lemma wellformed_run: "wellformed st \<Longrightarrow> wellformed (run evs st)"
  by (induction evs arbitrary: st) (simp_all add: wellformed_step)

subsection \<open>Disposal\<close>

lemma new_effects_append: "trace st' = trace st @ es \<Longrightarrow> new_effects st st' = es"
  by (simp add: new_effects_def)

lemma handleMessage_disposed: "disposed st \<Longrightarrow> handleMessage raw st = (st, Returns)"
  by (simp add: handleMessage_def)

lemma onclose_disposed: "disposed st \<Longrightarrow> onclose s code reason r st = (cleanup st, Returns)"
  by (simp add: onclose_def Let_def)

lemma handleHello_resumed_disposed: "disposed st \<Longrightarrow> handleHello_resumed data token st = st"
  by (simp add: handleHello_resumed_def)

lemma quiet_step:
  assumes "disposed st" and "heartbeatTimer st = None" and "reconnectTimer st = None"
  shows "disposed (step ev st) \<and> heartbeatTimer (step ev st) = None
         \<and> reconnectTimer (step ev st) = None
         \<and> length (sockets (step ev st)) = length (sockets st)
         \<and> filter starts (trace (step ev st)) = filter starts (trace st)"
proof (cases ev)
  case Connect
  with assms show ?thesis by (simp add: connect_disposed)
next
  case Disconnect
  with assms show ?thesis by simp
next
  case (SendPresenceUpdate status)
  with assms show ?thesis by simp
next
  case (On k i h)
  with assms show ?thesis by simp
next
  case (SocketOpens s)
  with assms show ?thesis by (simp add: Let_def)
next
  case (SocketMessage s raw)
  with assms show ?thesis by (simp add: handleMessage_disposed uncaught_def)
next
  case (SocketCloses s code reason r)
  with assms show ?thesis by (simp add: Let_def onclose_disposed uncaught_def)
next
  case (SocketError s)
  with assms show ?thesis by simp
next
  case HeartbeatFires
  with assms show ?thesis by simp
next
  case ReconnectFires
  with assms show ?thesis by simp
next
  case (TokenSettles i res)
  with assms show ?thesis
    by (simp add: Let_def handleHello_resumed_disposed split: token_result.split)
qed

lemma quiet_run:
  assumes "disposed st" and "heartbeatTimer st = None" and "reconnectTimer st = None"
  shows "disposed (run evs st) \<and> heartbeatTimer (run evs st) = None
         \<and> reconnectTimer (run evs st) = None
         \<and> length (sockets (run evs st)) = length (sockets st)
         \<and> filter starts (trace (run evs st)) = filter starts (trace st)"
  using assms
proof (induction evs arbitrary: st)
  case Nil
  then show ?case by simp
next
  case (Cons ev evs)
  from quiet_step[OF Cons.prems, of ev] Cons.IH[of "step ev st"]
  show ?case by simp
qed

text \<open>
  C1. Once \<open>disconnect()\<close> has been called, whatever happens afterwards (calls of
  \<open>connect()\<close> and \<open>disconnect()\<close>, socket events, timers, token fetches settling): the
  client stays disposed, \<open>connect()\<close> changes nothing, no socket is created and no timer is
  started.
\<close>

theorem disposal_is_permanent:
  "disposed (run evs (disconnect st))
   \<and> connect (run evs (disconnect st)) = run evs (disconnect st)
   \<and> length (sockets (run evs (disconnect st))) = length (sockets st)
   \<and> filter starts (trace (run evs (disconnect st))) = filter starts (trace st)"
  using quiet_run[of "disconnect st" evs] by (simp add: connect_disposed)

subsection \<open>The example states, evaluated\<close>

lemma connected_eq:
  "connected =
     \<lparr> baseUrl = ''http://localhost:8080'', ws = Some 0, heartbeatTimer = None,
       heartbeatAckReceived = True, reconnectTimer = None, reconnectAttempts = 0,
       sessionId = JNull, seq = JNull, intentionalClose = False, disposed = False,
       listeners = Map.empty,
       sockets = [\<lparr>url = ''ws://localhost:8080/api/v1/gateway'', readyState = OPEN, wired = True\<rparr>],
       pending = [], trace = [NewWebSocket 0 ''ws://localhost:8080/api/v1/gateway''] \<rparr>"
  by (simp add: connected_def run_defs)

lemma awaiting_token_eq:
  "awaiting_token =
     connected\<lparr>pending := [JObj [(''heartbeat_interval'', JNum 1000)]],
               trace := [NewWebSocket 0 ''ws://localhost:8080/api/v1/gateway'', GetToken]\<rparr>"
  by (simp add: awaiting_token_def connected_eq hello_frame_def uncaught_def handleMessage_def
      isFrame_def isHelloData_def handleHello_await_def perform_def opcode_defs)

lemma identified_eq:
  "identified =
     connected\<lparr>heartbeatTimer := Some 1000,
               trace := [NewWebSocket 0 ''ws://localhost:8080/api/v1/gateway'', GetToken,
                         SetInterval 1000, WsSend 0 (identify_frame ''test-token'')]\<rparr>"
  by (simp add: identified_def awaiting_token_eq connected_eq run_defs)

lemma handleHello_resumed_trace:
  assumes "\<not> disposed st" and "token \<noteq> []"
  shows "trace (handleHello_resumed data (Some token) st) =
           trace st @ (case heartbeatTimer st of None \<Rightarrow> [] | Some t \<Rightarrow> [ClearInterval])
           @ [SetInterval (heartbeat_interval data)]
           @ (if socket_open st
              then [WsSend (the (ws st))
                     (if truthy (Some (sessionId st)) \<and> seq st \<noteq> JNull
                      then resume_frame token (sessionId st) (seq st)
                      else identify_frame token)]
              else [])"
  using assms
  by (simp add: handleHello_resumed_def Let_def socket_open_cong[of "startHeartbeat (heartbeat_interval data) st" st])

lemma filter_send_clear [simp]:
  "filter is_send (case t of None \<Rightarrow> [] | Some x \<Rightarrow> [ClearInterval]) = []"
  by (simp split: option.split)

subsection \<open>The Hello handler: Resume or Identify\<close>

text \<open>
  C2, as the code has it. In every state a client can reach, when the token fetch of a Hello
  resolves to a non-empty token and the client is not disposed: if the current socket is
  open, exactly one frame is sent, and it is Resume (with the stored session id and sequence
  number) when both are non-null and Identify otherwise; if the socket is not open, no frame
  is sent.
\<close>

theorem hello_resumes_iff_session_known:
  assumes "st = run evs (GatewayClient b)" and "\<not> disposed st" and "token \<noteq> []"
  shows "filter is_send (new_effects st (handleHello_resumed data (Some token) st)) =
           (if socket_open st
            then [WsSend (the (ws st))
                   (if sessionId st \<noteq> JNull \<and> seq st \<noteq> JNull
                    then resume_frame token (sessionId st) (seq st)
                    else identify_frame token)]
            else [])"
proof -
  have "wellformed st" using assms(1) wellformed_run[OF wellformed_init] by simp
  then have t: "truthy (Some (sessionId st)) = (sessionId st \<noteq> JNull)"
    by (auto simp: wellformed_def)
  show ?thesis
    unfolding new_effects_append[OF handleHello_resumed_trace[OF assms(2,3)]] t
    by simp
qed

theorem hello_resumes_iff_session_known_witness:
  "\<not> disposed (step (SocketMessage 0 (Value ready_frame)) identified)
   \<and> ''tok'' \<noteq> []
   \<and> filter is_send
        (new_effects (step (SocketMessage 0 (Value ready_frame)) identified)
          (handleHello_resumed (JObj [(''heartbeat_interval'', JNum 1000)]) (Some ''tok'')
            (step (SocketMessage 0 (Value ready_frame)) identified)))
       = [WsSend 0 (resume_frame ''tok'' (JStr ''sess-1'') (JNum 1))]"
proof -
  define st where "st = step (SocketMessage 0 (Value ready_frame)) identified"
  have r: "st = run [Connect, SocketOpens 0, SocketMessage 0 (Value hello_frame),
                     TokenSettles 0 (Resolved (Some ''test-token'')),
                     SocketMessage 0 (Value ready_frame)] (GatewayClient ''http://localhost:8080'')"
    by (simp add: st_def identified_def awaiting_token_def connected_def)
  have e: "st = identified\<lparr>sessionId := JStr ''sess-1'', seq := JNum 1\<rparr>"
    by (simp add: st_def identified_eq connected_eq ready_frame_def uncaught_def handleMessage_def
        handleDispatch_def track_seq_def store_session_id_def emit_def isFrame_def isReadyData_def
        opcode_defs)
  have f: "\<not> disposed st" "socket_open st" "ws st = Some 0" "sessionId st = JStr ''sess-1''"
    "seq st = JNum 1"
    by (simp_all add: e identified_eq connected_eq socket_open_def)
  have t: "''tok'' \<noteq> []" by simp
  from hello_resumes_iff_session_known[OF r f(1) t, of "JObj [(''heartbeat_interval'', JNum 1000)]"] f
  show ?thesis unfolding st_def[symmetric] by simp
qed

text \<open>
  C2 as stated fails: the socket closes while the token is being fetched; the fetch then
  resolves to a token on a client that is not disposed and has no session, and neither
  Identify nor Resume is sent (the only call is the start of the heartbeat timer).
\<close>

theorem hello_after_close_sends_nothing:
  "\<not> disposed (step (SocketCloses 0 1006 [] (1 / 2)) awaiting_token)
   \<and> sessionId (step (SocketCloses 0 1006 [] (1 / 2)) awaiting_token) = JNull
   \<and> pending (step (SocketCloses 0 1006 [] (1 / 2)) awaiting_token)
       = [JObj [(''heartbeat_interval'', JNum 1000)]]
   \<and> new_effects (step (SocketCloses 0 1006 [] (1 / 2)) awaiting_token)
        (step (TokenSettles 0 (Resolved (Some ''test-token'')))
          (step (SocketCloses 0 1006 [] (1 / 2)) awaiting_token))
       = [SetInterval 1000]"
  by (simp add: awaiting_token_eq connected_eq run_defs)

subsection \<open>The Hello handler: token first, heartbeat after\<close>

lemma handleHello_resumed_effects:
  assumes "\<not> disposed st"
  shows "trace (handleHello_resumed d token st) =
           trace st
           @ (case heartbeatTimer st of None \<Rightarrow> [] | Some t \<Rightarrow> [ClearInterval])
           @ [SetInterval (heartbeat_interval d)]
           @ (case token of
                None \<Rightarrow> (case ws st of None \<Rightarrow> [] | Some s \<Rightarrow> [WsClose s 4000])
              | Some tok \<Rightarrow>
                  if tok = [] then (case ws st of None \<Rightarrow> [] | Some s \<Rightarrow> [WsClose s 4000])
                  else if socket_open st
                  then [WsSend (the (ws st))
                         (if truthy (Some (sessionId st)) \<and> seq st \<noteq> JNull
                          then resume_frame tok (sessionId st) (seq st)
                          else identify_frame tok)]
                  else [])"
proof -
  let ?st1 = "startHeartbeat (heartbeat_interval d) st"
  have o: "socket_open ?st1 = socket_open st" by (rule socket_open_cong) simp_all
  show ?thesis
  proof (cases token)
    case None
    with assms show ?thesis
      by (simp add: handleHello_resumed_def Let_def split: option.split)
  next
    case (Some tok)
    show ?thesis
    proof (cases "tok = []")
      case True
      with Some assms show ?thesis
        by (simp add: handleHello_resumed_def Let_def split: option.split)
    next
      case False
      with Some assms o show ?thesis
        by (simp add: handleHello_resumed_def Let_def)
    qed
  qed
qed

text \<open>
  C3, as the code has it. A Hello frame with a valid heartbeat interval makes the handler
  call the token accessor and suspend; nothing else changes, so no heartbeat timer is
  started then. When the fetch has resolved: on a disposed client nothing happens at all;
  on a client that is not disposed the heartbeat timer is started (a previous one being
  cleared) whatever the token is, and only after that call comes the one the token decides:
  \<open>close(4000)\<close> when there is no token, Resume or Identify on an open socket otherwise.
\<close>

theorem hello_requests_token_before_heartbeat:
  assumes "\<not> disposed st" and "get_prop frame ''op'' = Some (JNum 10)"
    and "get_prop frame ''d'' = Some d" and "isHelloData (Some d)"
  shows "handleMessage (Value frame) st
           = (st\<lparr>pending := pending st @ [d], trace := trace st @ [GetToken]\<rparr>, Returns)
         \<and> (disposed st' \<longrightarrow> handleHello_resumed d token st' = st')
         \<and> (\<not> disposed st' \<longrightarrow>
              heartbeatTimer (handleHello_resumed d token st') = Some (heartbeat_interval d)
              \<and> new_effects st' (handleHello_resumed d token st') =
                  (case heartbeatTimer st' of None \<Rightarrow> [] | Some t \<Rightarrow> [ClearInterval])
                  @ [SetInterval (heartbeat_interval d)]
                  @ (case token of
                       None \<Rightarrow> (case ws st' of None \<Rightarrow> [] | Some s \<Rightarrow> [WsClose s 4000])
                     | Some tok \<Rightarrow>
                         if tok = []
                         then (case ws st' of None \<Rightarrow> [] | Some s \<Rightarrow> [WsClose s 4000])
                         else if socket_open st'
                         then [WsSend (the (ws st'))
                                (if truthy (Some (sessionId st')) \<and> seq st' \<noteq> JNull
                                 then resume_frame tok (sessionId st') (seq st')
                                 else identify_frame tok)]
                         else []))"
proof -
  have fr: "isFrame frame" using assms(2) by (cases frame) (simp_all add: isFrame_def)
  have a: "handleMessage (Value frame) st
           = (st\<lparr>pending := pending st @ [d], trace := trace st @ [GetToken]\<rparr>, Returns)"
    using assms fr by (simp add: handleMessage_def handleHello_await_def perform_def opcode_defs)
  have b: "disposed st' \<longrightarrow> handleHello_resumed d token st' = st'"
    by (simp add: handleHello_resumed_disposed)
  have c: "heartbeatTimer (handleHello_resumed d token st') = Some (heartbeat_interval d)"
    if "\<not> disposed st'"
    using that by simp
  from a b c new_effects_append[OF handleHello_resumed_effects[of st' d token]]
  show ?thesis by simp
qed

theorem hello_requests_token_before_heartbeat_witness:
  "\<not> disposed connected
   \<and> get_prop hello_frame ''op'' = Some (JNum 10)
   \<and> get_prop hello_frame ''d'' = Some (JObj [(''heartbeat_interval'', JNum 1000)])
   \<and> isHelloData (Some (JObj [(''heartbeat_interval'', JNum 1000)]))
   \<and> fst (handleMessage (Value hello_frame) connected) = awaiting_token
   \<and> \<not> disposed awaiting_token
   \<and> new_effects awaiting_token
        (handleHello_resumed (JObj [(''heartbeat_interval'', JNum 1000)])
          (Some ''test-token'') awaiting_token)
       = [SetInterval 1000, WsSend 0 (identify_frame ''test-token'')]
   \<and> disposed (disconnect awaiting_token)
   \<and> handleHello_resumed (JObj [(''heartbeat_interval'', JNum 1000)])
         (Some ''test-token'') (disconnect awaiting_token) = disconnect awaiting_token"
proof -
  have h: "\<not> disposed connected" "get_prop hello_frame ''op'' = Some (JNum 10)"
    "get_prop hello_frame ''d'' = Some (JObj [(''heartbeat_interval'', JNum 1000)])"
    "isHelloData (Some (JObj [(''heartbeat_interval'', JNum 1000)]))"
    by (simp_all add: connected_eq hello_frame_def isHelloData_def)
  have d: "\<not> disposed awaiting_token" "heartbeatTimer awaiting_token = None"
    "socket_open awaiting_token" "ws awaiting_token = Some 0" "sessionId awaiting_token = JNull"
    by (simp_all add: awaiting_token_eq connected_eq socket_open_def)
  have e: "disposed (disconnect awaiting_token)" by simp
  from hello_requests_token_before_heartbeat[OF h, of awaiting_token "Some ''test-token''"]
    hello_requests_token_before_heartbeat[OF h, of "disconnect awaiting_token" "Some ''test-token''"]
    d e h
  show ?thesis by (simp add: awaiting_token_eq connected_eq heartbeat_interval_def)
qed

text \<open>
  C3 as stated fails: when the Hello frame has been handled the token has been requested and
  no heartbeat timer exists.
\<close>

theorem heartbeat_not_started_at_token_request:
  "new_effects connected (step (SocketMessage 0 (Value hello_frame)) connected) = [GetToken]
   \<and> heartbeatTimer (step (SocketMessage 0 (Value hello_frame)) connected) = None"
  using awaiting_token_eq
  by (simp add: awaiting_token_def connected_eq new_effects_def)

subsection \<open>Close codes\<close>

lemma called_returning: "\<forall>h\<in>set hs. snd h d = Returns \<Longrightarrow> called hs d = hs \<and> \<not> list_ex (\<lambda>h. snd h d = Throws) hs"
  by (induction hs) simp_all

lemma emit_all_return:
  assumes "\<forall>h\<in>set (case listeners st ev of None \<Rightarrow> [] | Some hs \<Rightarrow> hs). snd h d = Returns"
  shows "emit ev d st =
           (st\<lparr>trace := trace st @ map (\<lambda>h. Invoke (fst h) d (seq st))
                                      (case listeners st ev of None \<Rightarrow> [] | Some hs \<Rightarrow> hs)\<rparr>,
            Returns)"
proof (cases "listeners st ev")
  case None
  then show ?thesis by (simp add: emit_eq)
next
  case (Some hs)
  with assms have "\<forall>h\<in>set hs. snd h d = Returns" by simp
  from called_returning[OF this] Some show ?thesis by (simp add: emit_eq)
qed

lemma scheduleReconnect_trace:
  assumes "\<not> disposed st"
  shows "trace (scheduleReconnect delayMs r st) =
           trace st @ (case reconnectTimer st of None \<Rightarrow> [] | Some t \<Rightarrow> [ClearTimeout])
           @ [SetTimeout (the (reconnectTimer (scheduleReconnect delayMs r st)))]"
  using assms by (simp add: scheduleReconnect_def Let_def)

text \<open>
  C4, as the code has it. A close with code 4008 of the current socket of a client that is
  not disposed, that did not close intentionally and none of whose close subscribers throws,
  schedules a reconnect after \<open>Math.round(60000 + (r - 0.5) \<times> 60000)\<close> milliseconds, the
  expression being evaluated in doubles and \<open>r\<close> being the random draw: a delay between
  30000 and 90000 that does not depend on the attempt counter. The counter is incremented
  all the same.
\<close>

theorem rate_limited_close_waits_with_jitter:
  assumes "\<not> disposed st" and "ws st = Some s" and "\<not> intentionalClose st"
    and "\<forall>h\<in>set (case listeners st ''close'' of None \<Rightarrow> [] | Some hs \<Rightarrow> hs).
           snd h (close_event 4008 reason) = Returns"
    and "0 \<le> r" and "r < 1"
  shows "snd (onclose s 4008 reason r st) = Returns
         \<and> reconnectTimer (fst (onclose s 4008 reason r st))
             = Some (Math_round (fl (60000 + fl (fl (r - 1 / 2) * 60000))))
         \<and> SetTimeout (Math_round (fl (60000 + fl (fl (r - 1 / 2) * 60000))))
             \<in> set (new_effects st (fst (onclose s 4008 reason r st)))
         \<and> 30000 \<le> Math_round (fl (60000 + fl (fl (r - 1 / 2) * 60000)))
         \<and> Math_round (fl (60000 + fl (fl (r - 1 / 2) * 60000))) \<le> 90000
         \<and> reconnectAttempts (fst (onclose s 4008 reason r st)) = reconnectAttempts st + 1"
proof -
  define st1 where "st1 = cleanup st"
  define st2 where
    "st2 = st1\<lparr>trace := trace st1 @ map (\<lambda>h. Invoke (fst h) (close_event 4008 reason) (seq st1))
                 (case listeners st1 ''close'' of None \<Rightarrow> [] | Some hs \<Rightarrow> hs)\<rparr>"
  have l: "listeners st1 = listeners st" by (simp add: st1_def)
  have em: "emit ''close'' (close_event 4008 reason) st1 = (st2, Returns)"
    unfolding st2_def using assms(4) l by (intro emit_all_return) simp
  have nd: "\<not> disposed st2" "\<not> intentionalClose st2" "reconnectAttempts st2 = reconnectAttempts st"
    using assms(1,3) by (simp_all add: st2_def st1_def)
  have c1: "\<not> disposed st1" "ws st1 = Some s"
    using assms(1,2) by (simp_all add: st1_def)
  have oc: "onclose s 4008 reason r st = (scheduleReconnect (Some 60000) r st2, Returns)"
    using c1 em nd
    by (simp add: onclose_def Let_def st1_def[symmetric] opcode_defs)
  have tr: "\<exists>es. trace st2 = trace st @ es"
    by (simp add: st2_def st1_def)
  then obtain es where es: "trace st2 = trace st @ es" by blast
  have "trace (scheduleReconnect (Some 60000) r st2)
          = trace st @ (es @ (case reconnectTimer st2 of None \<Rightarrow> [] | Some t \<Rightarrow> [ClearTimeout])
             @ [SetTimeout (Math_round (fl (60000 + fl (fl (r - 1 / 2) * 60000))))])"
    using scheduleReconnect_trace[OF nd(1), of "Some 60000" r]
      scheduleReconnect_timer(1)[OF nd(1), of "Some 60000" r] es by simp
  from new_effects_append[OF this]
  have ne: "SetTimeout (Math_round (fl (60000 + fl (fl (r - 1 / 2) * 60000))))
          \<in> set (new_effects st (scheduleReconnect (Some 60000) r st2))" by simp
  have "real_of_int 30000 \<le> fl (60000 + fl (fl (r - 1 / 2) * 60000))"
    "fl (60000 + fl (fl (r - 1 / 2) * 60000)) \<le> real_of_int 90000"
    using jitter_range[of 60000 r] assms(5,6) by simp_all
  from round_between[OF this]
  have bd: "30000 \<le> Math_round (fl (60000 + fl (fl (r - 1 / 2) * 60000)))"
    "Math_round (fl (60000 + fl (fl (r - 1 / 2) * 60000))) \<le> 90000" by simp_all
  show ?thesis
    using oc ne bd scheduleReconnect_timer(1,3)[OF nd(1), of "Some 60000" r] nd(3)
    by simp
qed

theorem rate_limited_close_waits_with_jitter_witness:
  "\<not> disposed identified \<and> ws identified = Some 0 \<and> \<not> intentionalClose identified
   \<and> (0::real) \<le> 3 / 4 \<and> (3 / 4 :: real) < 1
   \<and> reconnectTimer (fst (onclose 0 4008 [] (3 / 4) identified)) = Some 75000
   \<and> (0::real) \<le> 150119987579 / 2 ^ 54 \<and> (150119987579 / 2 ^ 54 :: real) < 1
   \<and> reconnectTimer (fst (onclose 0 4008 [] (150119987579 / 2 ^ 54) identified)) = Some 30001"
proof -
  have h: "\<not> disposed identified" "ws identified = Some 0" "\<not> intentionalClose identified"
    "\<forall>h\<in>set (case listeners identified ''close'' of None \<Rightarrow> [] | Some hs \<Rightarrow> hs).
           snd h (close_event 4008 []) = Returns"
    by (simp_all add: identified_eq connected_eq)
  have r: "(0::real) \<le> 3 / 4" "(3 / 4 :: real) < 1" by simp_all
  have r': "(0::real) \<le> 150119987579 / 2 ^ 54" "(150119987579 / 2 ^ 54 :: real) < 1"
    by simp_all
  have m: "Math_round (fl (60000 + fl (fl (3 / 4 - 1 / 2) * 60000))) = 75000"
    by (simp add: Math_round_def)
  have m': "Math_round (fl (60000 + fl (fl (150119987579 / 2 ^ 54 - 1 / 2) * 60000))) = 30001"
    unfolding near_tie_difference near_tie_product near_tie_sum by (simp add: Math_round_def)
  from rate_limited_close_waits_with_jitter[OF h r]
  have a: "reconnectTimer (fst (onclose 0 4008 [] (3 / 4) identified)) = Some 75000"
    unfolding m by simp
  from rate_limited_close_waits_with_jitter[OF h r']
  have b: "reconnectTimer (fst (onclose 0 4008 [] (150119987579 / 2 ^ 54) identified)) = Some 30001"
    unfolding m' by simp
  from a b h r r' show ?thesis by simp
qed

text \<open>
  C4 as stated fails: with the random source returning 0 the reconnect after a 4008 close is
  scheduled after 30000 ms, not 60000 ms.
\<close>

theorem rate_limited_close_can_wait_30000:
  "reconnectTimer (step (SocketCloses 0 4008 [] 0) identified) = Some 30000"
  by (simp add: identified_eq connected_eq run_defs)

subsection \<open>Heartbeat ticks\<close>

lemma heartbeatTick_missed:
  assumes "\<not> heartbeatAckReceived st" and "ws st = Some s"
  shows "trace (heartbeatTick st) = trace st @ [WsClose s 4000]"
    and "\<not> heartbeatAckReceived (heartbeatTick st)"
  using assms by (simp_all add: heartbeatTick_def close_current_def)

lemma heartbeatTick_acked:
  assumes "heartbeatAckReceived st"
  shows "heartbeatTick st =
           st\<lparr>heartbeatAckReceived := False,
              trace := trace st @ (if socket_open st then [WsSend (the (ws st)) heartbeat_frame] else [])\<rparr>"
  using assms by (simp add: heartbeatTick_def send_def socket_open_def perform_def split: option.split)

text \<open>
  C5, as the code has it. At every tick of the heartbeat timer of a client in a reachable
  state the current socket exists, and: if the liveness flag is false the only call is
  \<open>close(4000)\<close> on that socket and no frame is sent; if the flag is true it is cleared, and
  a heartbeat frame is sent when the socket is open and dropped otherwise.
\<close>

theorem heartbeat_tick_closes_or_probes:
  assumes "st = run evs (GatewayClient b)" and "heartbeatTimer st \<noteq> None"
  shows "\<exists>s. ws st = Some s
           \<and> \<not> heartbeatAckReceived (heartbeatTick st)
           \<and> new_effects st (heartbeatTick st)
               = (if \<not> heartbeatAckReceived st then [WsClose s 4000]
                  else if socket_open st then [WsSend s heartbeat_frame]
                  else [])"
proof -
  have "wellformed st" using assms(1) wellformed_run[OF wellformed_init] by simp
  with assms(2) obtain s where s: "ws st = Some s" by (auto simp: wellformed_def)
  show ?thesis
  proof (cases "heartbeatAckReceived st")
    case True
    from heartbeatTick_acked[OF True] s True show ?thesis by (simp add: new_effects_def)
  next
    case False
    from heartbeatTick_missed[OF False s] s False show ?thesis by (simp add: new_effects_def)
  qed
qed

lemma identified_run:
  "identified = run [Connect, SocketOpens 0, SocketMessage 0 (Value hello_frame),
                     TokenSettles 0 (Resolved (Some ''test-token''))]
                  (GatewayClient ''http://localhost:8080'')"
  by (simp add: identified_def awaiting_token_def connected_def)

theorem heartbeat_tick_closes_or_probes_witness:
  "heartbeatTimer identified \<noteq> None
   \<and> new_effects identified (heartbeatTick identified) = [WsSend 0 heartbeat_frame]
   \<and> heartbeatTimer (heartbeatTick identified) \<noteq> None
   \<and> new_effects (heartbeatTick identified) (heartbeatTick (heartbeatTick identified))
       = [WsClose 0 4000]"
proof -
  define st where "st = heartbeatTick identified"
  have r1: "st = run ([Connect, SocketOpens 0, SocketMessage 0 (Value hello_frame),
                     TokenSettles 0 (Resolved (Some ''test-token''))] @ [HeartbeatFires])
                  (GatewayClient ''http://localhost:8080'')"
    unfolding run_append identified_run[symmetric] st_def
    by (simp add: identified_eq)
  have t0: "heartbeatTimer identified \<noteq> None" "heartbeatAckReceived identified"
    "socket_open identified" "ws identified = Some 0"
    by (simp_all add: identified_eq connected_eq socket_open_def)
  have t1: "heartbeatTimer st \<noteq> None" "\<not> heartbeatAckReceived st" "ws st = Some 0"
    using heartbeatTick_acked[OF t0(2)] t0 by (simp_all add: st_def)
  from heartbeat_tick_closes_or_probes[OF identified_run t0(1)] t0
  have a: "new_effects identified (heartbeatTick identified) = [WsSend 0 heartbeat_frame]" by auto
  from heartbeat_tick_closes_or_probes[OF r1 t1(1)] t1
  have b: "new_effects st (heartbeatTick st) = [WsClose 0 4000]" by auto
  from a b t0 t1 show ?thesis unfolding st_def by simp
qed

text \<open>
  C5 as stated fails: the server asks for a reconnect, the client calls \<open>close(4000)\<close> and
  the socket is closing; the heartbeat timer is still set and the liveness flag is true. The
  next tick clears the flag and sends no heartbeat frame.
\<close>

theorem heartbeat_dropped_while_closing:
  "heartbeatTimer (step (SocketMessage 0 (Value reconnect_frame)) identified) = Some 1000
   \<and> heartbeatAckReceived (step (SocketMessage 0 (Value reconnect_frame)) identified)
   \<and> new_effects (step (SocketMessage 0 (Value reconnect_frame)) identified)
        (step HeartbeatFires (step (SocketMessage 0 (Value reconnect_frame)) identified)) = []
   \<and> \<not> heartbeatAckReceived
         (step HeartbeatFires (step (SocketMessage 0 (Value reconnect_frame)) identified))"
  by (simp add: identified_eq connected_eq run_defs example_defs)

subsection \<open>Malformed messages\<close>

text \<open>
  C7. A message whose payload does not parse, or parses to a value that is not a Frame, is
  dropped: the handler returns without throwing, and the state is the one before except that
  a parse failure on a client that is not disposed has called \<open>console.warn\<close>. No handler is
  invoked, nothing is sent or closed, no field of the client changes.
\<close>

theorem malformed_message_dropped:
  assumes "raw = SyntaxError \<or> (\<exists>v. raw = Value v \<and> \<not> isFrame v)"
  shows "handleMessage raw st =
           (st\<lparr>trace := trace st @ (if raw = SyntaxError \<and> \<not> disposed st then [ConsoleWarn] else [])\<rparr>,
            Returns)"
  using assms by (auto simp: handleMessage_def perform_def)

theorem malformed_message_dropped_witness:
  "\<not> isFrame (JObj [(''op'', JStr ''10'')])
   \<and> handleMessage (Value (JObj [(''op'', JStr ''10'')])) identified = (identified, Returns)
   \<and> handleMessage SyntaxError identified
       = (identified\<lparr>trace := trace identified @ [ConsoleWarn]\<rparr>, Returns)"
proof -
  have n: "\<not> isFrame (JObj [(''op'', JStr ''10'')])" by (simp add: isFrame_def)
  have d: "\<not> disposed identified" by (simp add: identified_eq connected_eq)
  from malformed_message_dropped[of "Value (JObj [(''op'', JStr ''10'')])" identified]
    malformed_message_dropped[of SyntaxError identified] n d
  show ?thesis by simp
qed

subsection \<open>Subscribers that throw\<close>

lemma stableHandler_returns: "stableHandler f d = Returns"
  by (simp add: stableHandler_def split: outcome.split)

text \<open>
  C8, as the code has it. When every handler registered for a key is the wrapper that
  \<open>useGatewayEvent\<close> registers, or is a handler that returns on this event, an emission
  for the key invokes every one of them, in order, whatever the wrapped handlers do, and no
  exception leaves \<open>emit\<close>.
\<close>

theorem hook_handlers_all_delivered:
  assumes "listeners st event = Some hs"
    and "\<forall>h\<in>set hs. (\<exists>f. snd h = stableHandler f) \<or> snd h data = Returns"
  shows "emit event data st =
           (st\<lparr>trace := trace st @ map (\<lambda>h. Invoke (fst h) data (seq st)) hs\<rparr>, Returns)"
proof -
  from assms(2) have "\<forall>h\<in>set hs. snd h data = Returns"
    by (auto simp: stableHandler_returns)
  with assms(1)
  have "\<forall>h\<in>set (case listeners st event of None \<Rightarrow> [] | Some hs \<Rightarrow> hs). snd h data = Returns"
    by simp
  from emit_all_return[OF this] assms(1) show ?thesis by simp
qed

lemma hook_subscribers_eq:
  "hook_subscribers =
     identified\<lparr>listeners :=
       [''MESSAGE_CREATE'' \<mapsto> [(1, stableHandler throwing_handler),
                                (2, stableHandler returning_handler)]]\<rparr>"
  by (simp add: hook_subscribers_def identified_eq connected_eq on_event_def Set_add_def)

lemma direct_subscribers_eq:
  "direct_subscribers =
     identified\<lparr>listeners :=
       [''MESSAGE_CREATE'' \<mapsto> [(1, throwing_handler), (2, returning_handler)]]\<rparr>"
  by (simp add: direct_subscribers_def identified_eq connected_eq on_event_def Set_add_def)

theorem hook_handlers_all_delivered_witness:
  "listeners hook_subscribers ''MESSAGE_CREATE''
     = Some [(1, stableHandler throwing_handler), (2, stableHandler returning_handler)]
   \<and> throwing_handler None = Throws
   \<and> emit ''MESSAGE_CREATE'' None hook_subscribers
       = (hook_subscribers\<lparr>trace := trace hook_subscribers @ [Invoke 1 None JNull, Invoke 2 None JNull]\<rparr>,
          Returns)"
proof -
  have l: "listeners hook_subscribers ''MESSAGE_CREATE''
     = Some [(1, stableHandler throwing_handler), (2, stableHandler returning_handler)]"
    by (simp add: hook_subscribers_eq)
  have w: "\<forall>h\<in>set [(1::nat, stableHandler throwing_handler), (2, stableHandler returning_handler)].
             (\<exists>f. snd h = stableHandler f) \<or> snd h None = Returns"
    by auto
  have s: "seq hook_subscribers = JNull"
    by (simp add: hook_subscribers_eq identified_eq connected_eq)
  from hook_handlers_all_delivered[OF l w] l s show ?thesis
    by (simp add: throwing_handler_def)
qed

text \<open>
  C8 as stated fails for handlers registered with \<open>client.on\<close> directly: \<open>emit\<close> has no
  \<open>try\<close>/\<open>catch\<close>. Of two handlers for MESSAGE_CREATE the first throws; the second is
  never invoked and the exception leaves the message callback of the socket.
\<close>

theorem throwing_handler_stops_emission:
  "emit ''MESSAGE_CREATE'' (get_prop message_frame ''d'') direct_subscribers
     = (direct_subscribers\<lparr>trace := trace direct_subscribers
          @ [Invoke 1 (get_prop message_frame ''d'') JNull]\<rparr>, Throws)
   \<and> new_effects direct_subscribers
        (step (SocketMessage 0 (Value message_frame)) direct_subscribers)
       = [Invoke 1 (get_prop message_frame ''d'') (JNum 2), Uncaught]"
  by (simp add: direct_subscribers_eq identified_eq connected_eq run_defs example_defs)

subsection \<open>Sequence tracking\<close>

lemma track_seq_seq:
  "get_prop frame ''s'' = Some v \<Longrightarrow> v \<noteq> JNull \<Longrightarrow> seq (track_seq frame st) = v"
  by (simp add: track_seq_def)

lemma emit_invokes:
  "\<exists>hs :: (nat \<times> EventHandler) list.
     trace (fst (emit ev d st)) = trace st @ map (\<lambda>h. Invoke (fst h) d (seq st)) hs"
proof (cases "listeners st ev")
  case None
  then have "trace (fst (emit ev d st)) = trace st @ map (\<lambda>h. Invoke (fst h) d (seq st)) []"
    by (simp add: emit_trace)
  then show ?thesis by blast
next
  case (Some hs)
  then have "trace (fst (emit ev d st))
               = trace st @ map (\<lambda>h. Invoke (fst h) d (seq st)) (called hs d)"
    by (simp add: emit_trace)
  then show ?thesis by blast
qed

text \<open>
  C9. A dispatch frame with a non-null sequence number \<open>v\<close>, of any event type, leaves
  \<open>seq = v\<close>, and every call \<open>handleDispatch\<close> makes for it is the invocation of a
  subscriber made while \<open>seq\<close> already holds \<open>v\<close>.
\<close>

theorem dispatch_tracks_seq_before_emitting:
  assumes "get_prop frame ''s'' = Some v" and "v \<noteq> JNull"
  shows "seq (fst (handleDispatch frame st)) = v
         \<and> (\<forall>e\<in>set (new_effects st (fst (handleDispatch frame st))).
               \<exists>h. e = Invoke h (get_prop frame ''d'') v)"
proof -
  define d where "d = get_prop frame ''d''"
  define st1 where "st1 = track_seq frame st"
  have s1: "seq st1 = v" "trace st1 = trace st"
    using track_seq_seq[OF assms] by (simp_all add: st1_def)
  from handleDispatch_cases[of frame st] obtain st2 where
    b: "st2 = st1 \<or> st2 = fst (emit ''open'' d (store_session_id d st1))" and
    c: "fst (handleDispatch frame st) = st2
          \<or> (\<exists>t. fst (handleDispatch frame st) = fst (emit t d st2))"
    unfolding d_def st1_def by blast
  have s2: "seq st2 = v \<and> (\<exists>hs :: (nat \<times> EventHandler) list. trace st2 = trace st @ map (\<lambda>h. Invoke (fst h) d v) hs)"
  proof (cases "st2 = st1")
    case True
    with s1 show ?thesis by simp
  next
    case False
    with b have e: "st2 = fst (emit ''open'' d (store_session_id d st1))" by simp
    from emit_invokes[of "''open''" d "store_session_id d st1"] s1
    show ?thesis unfolding e by simp
  qed
  then obtain hs :: "(nat \<times> EventHandler) list"
    where hs: "trace st2 = trace st @ map (\<lambda>h. Invoke (fst h) d v) hs" by blast
  have s3: "seq (fst (handleDispatch frame st)) = v
            \<and> (\<exists>hs' :: (nat \<times> EventHandler) list. trace (fst (handleDispatch frame st))
                        = trace st @ map (\<lambda>h. Invoke (fst h) d v) hs')"
  proof (cases "fst (handleDispatch frame st) = st2")
    case True
    with s2 show ?thesis by simp
  next
    case False
    with c obtain t where t: "fst (handleDispatch frame st) = fst (emit t d st2)" by blast
    from emit_invokes[of t d st2] obtain hs2 :: "(nat \<times> EventHandler) list" where
      "trace (fst (emit t d st2)) = trace st2 @ map (\<lambda>h. Invoke (fst h) d (seq st2)) hs2" by blast
    with hs s2 have "trace (fst (emit t d st2)) = trace st @ map (\<lambda>h. Invoke (fst h) d v) (hs @ hs2)"
      by simp
    with s2 show ?thesis unfolding t by (simp del: map_append) blast
  qed
  then obtain hs' :: "(nat \<times> EventHandler) list" where
    "trace (fst (handleDispatch frame st)) = trace st @ map (\<lambda>h. Invoke (fst h) d v) hs'" by blast
  from new_effects_append[OF this] s3 show ?thesis unfolding d_def by auto
qed

theorem dispatch_tracks_seq_before_emitting_witness:
  "get_prop message_frame ''s'' = Some (JNum 2) \<and> JNum 2 \<noteq> JNull
   \<and> seq hook_subscribers = JNull
   \<and> seq (fst (handleDispatch message_frame hook_subscribers)) = JNum 2
   \<and> new_effects hook_subscribers (fst (handleDispatch message_frame hook_subscribers))
       = [Invoke 1 (get_prop message_frame ''d'') (JNum 2),
          Invoke 2 (get_prop message_frame ''d'') (JNum 2)]"
proof -
  have h: "get_prop message_frame ''s'' = Some (JNum 2)" "JNum 2 \<noteq> JNull"
    by (simp_all add: message_frame_def)
  have s: "seq hook_subscribers = JNull"
    by (simp add: hook_subscribers_eq identified_eq connected_eq)
  have n: "new_effects hook_subscribers (fst (handleDispatch message_frame hook_subscribers))
       = [Invoke 1 (get_prop message_frame ''d'') (JNum 2),
          Invoke 2 (get_prop message_frame ''d'') (JNum 2)]"
    by (simp add: hook_subscribers_eq identified_eq connected_eq run_defs example_defs
        stableHandler_def)
  from dispatch_tracks_seq_before_emitting[OF h, of hook_subscribers] h s n show ?thesis by simp
qed

subsection \<open>Outbound frames\<close>

lemma step_keeps_sent_unless_open:
  assumes n: "\<not> socket_open st"
  shows "filter is_send (trace (step ev st)) = filter is_send (trace st)"
proof (cases ev)
  case Connect
  then show ?thesis by simp
next
  case Disconnect
  then show ?thesis by simp
next
  case (SendPresenceUpdate status)
  with n show ?thesis by simp
next
  case (On k i h)
  then show ?thesis by simp
next
  case (SocketOpens s)
  then show ?thesis by (simp add: Let_def)
next
  case (SocketMessage s raw)
  then show ?thesis by simp
next
  case (SocketCloses s code reason r)
  then show ?thesis by (simp add: Let_def)
next
  case (SocketError s)
  then show ?thesis by simp
next
  case HeartbeatFires
  with n show ?thesis by (simp add: heartbeatTick_sent)
next
  case ReconnectFires
  then show ?thesis by simp
next
  case (TokenSettles i res)
  define st1 where "st1 = st\<lparr>pending := take i (pending st) @ drop (Suc i) (pending st)\<rparr>"
  have "socket_open st1 = socket_open st"
    by (rule socket_open_cong) (simp_all add: st1_def)
  with n have "\<not> socket_open st1" by simp
  from handleHello_resumed_sent[OF this] TokenSettles show ?thesis
    by (simp add: Let_def st1_def[symmetric] split: token_result.split) (simp add: st1_def)
qed

text \<open>
  C10. \<open>send\<close> hands the frame to the current socket when that socket exists and is open,
  and otherwise returns the state unchanged; presence updates go through it; and no event
  whatever (a presence update, a heartbeat tick, a token fetch settling with Identify or
  Resume prepared) adds a frame to those sent when the socket is not open as the event
  begins.
\<close>

theorem frames_sent_only_on_open_socket:
  "send frame st
     = (if socket_open st then st\<lparr>trace := trace st @ [WsSend (the (ws st)) frame]\<rparr> else st)
   \<and> sendPresenceUpdate status st = send (presence_frame status) st
   \<and> (socket_open st \<or> filter is_send (trace (step ev st)) = filter is_send (trace st))"
proof (cases "socket_open st")
  case True
  then show ?thesis
    by (auto simp: send_def socket_open_def perform_def sendPresenceUpdate_def split: option.split)
next
  case False
  with step_keeps_sent_unless_open[OF False, of ev] show ?thesis
    by (auto simp: send_def socket_open_def perform_def sendPresenceUpdate_def split: option.split)
qed

theorem frames_sent_only_on_open_socket_witness:
  "\<not> socket_open (step (SocketMessage 0 (Value reconnect_frame)) identified)
   \<and> sendPresenceUpdate ''online'' (step (SocketMessage 0 (Value reconnect_frame)) identified)
       = step (SocketMessage 0 (Value reconnect_frame)) identified
   \<and> socket_open identified
   \<and> new_effects identified (sendPresenceUpdate ''online'' identified)
       = [WsSend 0 (presence_frame ''online'')]"
proof -
  define st where "st = step (SocketMessage 0 (Value reconnect_frame)) identified"
  have c: "\<not> socket_open st"
    by (simp add: st_def identified_eq connected_eq run_defs example_defs)
  have o: "socket_open identified" "ws identified = Some 0"
    by (simp_all add: identified_eq connected_eq socket_open_def)
  from frames_sent_only_on_open_socket[of "presence_frame ''online''" st "''online''"] c
  have a: "sendPresenceUpdate ''online'' st = st" by simp
  from frames_sent_only_on_open_socket[of "presence_frame ''online''" identified "''online''"] o
  have b: "new_effects identified (sendPresenceUpdate ''online'' identified)
       = [WsSend 0 (presence_frame ''online'')]" by (simp add: new_effects_def)
  from a b c o show ?thesis unfolding st_def by simp
qed

end
